theory Spec2Isabelle
  imports Complex_Main "HOL-Library.AList"
begin

section \<open>Python values\<close>

text \<open>
  A Python \<open>str\<close> is a sequence of Unicode code points, so it is modelled as a list of
  naturals; \<open>str\<close> embeds an ASCII literal.
\<close>

type_synonym pystr = "nat list"

definition str :: "string \<Rightarrow> pystr" where
  "str s = map of_char s"

text \<open>
  The exceptions the publish module distinguishes: \<open>KeyboardInterrupt\<close> (not a subclass
  of \<open>Exception\<close>), any subclass of \<open>Exception\<close> caught by \<open>except Exception\<close>, and
  the \<open>UnboundLocalError\<close> raised by reading a local variable that was never assigned.
\<close>

datatype exc = KeyboardInterrupt | Exception | UnboundLocalError

definition bind_exc :: "exc + 'a \<Rightarrow> ('a \<Rightarrow> exc + 'b) \<Rightarrow> exc + 'b" where
  "bind_exc m f = (case m of Inl e \<Rightarrow> Inl e | Inr x \<Rightarrow> f x)"

text \<open>
  The values \<open>json.loads\<close> produces. An integer is unbounded. A float is modelled by the
  rational it denotes: rounding, infinities and NaN are not modelled. A dictionary is the
  list of its items in insertion order, the keys distinct.
\<close>

datatype pyval =
    PNone
  | PBool bool
  | PInt int
  | PFloat rat
  | PStr pystr
  | PList "pyval list"
  | PDict "(pystr \<times> pyval) list"

text \<open>The truth value of \<open>if v:\<close>.\<close>

definition truth :: "pyval \<Rightarrow> bool" where
  "truth v =
     (case v of
        PNone \<Rightarrow> False
      | PBool b \<Rightarrow> b
      | PInt i \<Rightarrow> i \<noteq> 0
      | PFloat x \<Rightarrow> x \<noteq> 0
      | PStr s \<Rightarrow> s \<noteq> []
      | PList xs \<Rightarrow> xs \<noteq> []
      | PDict kv \<Rightarrow> kv \<noteq> [])"

text \<open>\<open>result.get('choices', [{}])\<close>: only a dictionary has \<open>get\<close>.\<close>

definition get_choices :: "pyval \<Rightarrow> exc + pyval" where
  "get_choices result =
     (case result of
        PDict kv \<Rightarrow>
          (case map_of kv (str ''choices'') of
             None \<Rightarrow> Inr (PList [PDict []])
           | Some v \<Rightarrow> Inr v)
      | _ \<Rightarrow> Inl Exception)"

text \<open>
  \<open>choices[0]\<close>: the first item of a list, the first character of a string; a
  dictionary has no key \<open>0\<close> (its keys are strings) and the other values cannot be
  indexed.
\<close>

definition first_item :: "pyval \<Rightarrow> exc + pyval" where
  "first_item v =
     (case v of
        PList xs \<Rightarrow> (case xs of [] \<Rightarrow> Inl Exception | x # r \<Rightarrow> Inr x)
      | PStr s \<Rightarrow> (case s of [] \<Rightarrow> Inl Exception | c # r \<Rightarrow> Inr (PStr [c]))
      | _ \<Rightarrow> Inl Exception)"

definition is_substring :: "pystr \<Rightarrow> pystr \<Rightarrow> bool" where
  "is_substring key s = list_ex (\<lambda>i. take (length key) (drop i s) = key) [0..<Suc (length s)]"

text \<open>
  \<open>key in choice\<close>: a key of a dictionary, an item of a list, a substring of a string;
  the other values are not iterable.
\<close>

definition contains :: "pyval \<Rightarrow> pystr \<Rightarrow> exc + bool" where
  "contains v key =
     (case v of
        PDict kv \<Rightarrow> Inr (key \<in> fst ` set kv)
      | PList xs \<Rightarrow> Inr (PStr key \<in> set xs)
      | PStr s \<Rightarrow> Inr (is_substring key s)
      | _ \<Rightarrow> Inl Exception)"

text \<open>\<open>choice[key]\<close> for a string key: lists and strings want an integer index.\<close>

definition getitem :: "pyval \<Rightarrow> pystr \<Rightarrow> exc + pyval" where
  "getitem v key =
     (case v of
        PDict kv \<Rightarrow> (case map_of kv key of None \<Rightarrow> Inl Exception | Some x \<Rightarrow> Inr x)
      | _ \<Rightarrow> Inl Exception)"

text \<open>
  What \<open>list.extend(v)\<close> appends: the items of a list, the characters of a string, the
  keys of a dictionary.
\<close>

definition items_of :: "pyval \<Rightarrow> exc + pyval list" where
  "items_of v =
     (case v of
        PList xs \<Rightarrow> Inr xs
      | PStr s \<Rightarrow> Inr (map (\<lambda>c. PStr [c]) s)
      | PDict kv \<Rightarrow> Inr (map (\<lambda>p. PStr (fst p)) kv)
      | _ \<Rightarrow> Inl Exception)"

section \<open>Python numbers\<close>

text \<open>
  An \<open>int\<close> or a \<open>float\<close>; \<open>bool\<close> is a subclass of \<open>int\<close>. Converting an integer to a
  float raises \<open>OverflowError\<close> when it rounds to a magnitude beyond the largest double,
  that is from \<open>2^1024 - 2^970\<close> on.
\<close>

datatype num = I int | F rat

definition value_of :: "num \<Rightarrow> rat" where
  "value_of n = (case n of I i \<Rightarrow> of_int i | F x \<Rightarrow> x)"

definition as_num :: "pyval \<Rightarrow> exc + num" where
  "as_num v =
     (case v of
        PBool b \<Rightarrow> Inr (I (if b then 1 else 0))
      | PInt i \<Rightarrow> Inr (I i)
      | PFloat x \<Rightarrow> Inr (F x)
      | _ \<Rightarrow> Inl Exception)"

definition float_limit :: rat where
  "float_limit = 2 ^ 1024 - 2 ^ 970"

definition to_float :: "int \<Rightarrow> exc + rat" where
  "to_float i = (if float_limit \<le> \<bar>of_int i\<bar> then Inl Exception else Inr (of_int i))"

definition py_add :: "num \<Rightarrow> num \<Rightarrow> exc + num" where
  "py_add a b =
     (case a of
        I x \<Rightarrow>
          (case b of
             I y \<Rightarrow> Inr (I (x + y))
           | F y \<Rightarrow> bind_exc (to_float x) (\<lambda>x'. Inr (F (x' + y))))
      | F x \<Rightarrow>
          (case b of
             I y \<Rightarrow> bind_exc (to_float y) (\<lambda>y'. Inr (F (x + y')))
           | F y \<Rightarrow> Inr (F (x + y))))"

definition float_div :: "rat \<Rightarrow> rat \<Rightarrow> exc + num" where
  "float_div x y = (if y = 0 then Inl Exception else Inr (F (x / y)))"

text \<open>
  \<open>a / b\<close>. Two integers give the correctly rounded quotient, or \<open>OverflowError\<close> when it
  is too large for a float; otherwise the integer operand is converted first.
\<close>

definition py_truediv :: "num \<Rightarrow> num \<Rightarrow> exc + num" where
  "py_truediv a b =
     (case a of
        I x \<Rightarrow>
          (case b of
             I y \<Rightarrow>
               if y = 0 then Inl Exception
               else if float_limit \<le> \<bar>of_int x / of_int y\<bar> then Inl Exception
               else Inr (F (of_int x / of_int y))
           | F y \<Rightarrow> bind_exc (to_float x) (\<lambda>x'. float_div x' y))
      | F x \<Rightarrow>
          (case b of
             I y \<Rightarrow> bind_exc (to_float y) (\<lambda>y'. float_div x y')
           | F y \<Rightarrow> float_div x y))"

text \<open>\<open>len(xs)\<close>, an integer.\<close>

definition len_num :: "'a list \<Rightarrow> num" where
  "len_num xs = I (int (length xs))"

text \<open>\<open>sum(xs)\<close>: starts from the integer 0 and adds the items from left to right.\<close>

fun sum_from :: "num \<Rightarrow> pyval list \<Rightarrow> exc + num" where
  "sum_from acc [] = Inr acc"
| "sum_from acc (x # xs) =
     bind_exc (as_num x) (\<lambda>n. bind_exc (py_add acc n) (\<lambda>acc'. sum_from acc' xs))"

definition py_sum :: "pyval list \<Rightarrow> exc + num" where
  "py_sum xs = sum_from (I 0) xs"

text \<open>
  \<open>max(xs)\<close> and \<open>min(xs)\<close> keep the first extremal item. They are reached only after
  \<open>sum\<close> has accepted the same list, so every item is a number; the comparison of an
  integer with a float is exact.
\<close>

fun max_from :: "num \<Rightarrow> pyval list \<Rightarrow> exc + num" where
  "max_from best [] = Inr best"
| "max_from best (x # xs) =
     bind_exc (as_num x) (\<lambda>n. max_from (if value_of best < value_of n then n else best) xs)"

fun min_from :: "num \<Rightarrow> pyval list \<Rightarrow> exc + num" where
  "min_from best [] = Inr best"
| "min_from best (x # xs) =
     bind_exc (as_num x) (\<lambda>n. min_from (if value_of n < value_of best then n else best) xs)"

definition py_max :: "pyval list \<Rightarrow> exc + num" where
  "py_max xs = (case xs of [] \<Rightarrow> Inl Exception | x # r \<Rightarrow> bind_exc (as_num x) (\<lambda>n. max_from n r))"

definition py_min :: "pyval list \<Rightarrow> exc + num" where
  "py_min xs = (case xs of [] \<Rightarrow> Inl Exception | x # r \<Rightarrow> bind_exc (as_num x) (\<lambda>n. min_from n r))"

text \<open>\<open>x > 0\<close>\<close>

definition positive :: "pyval \<Rightarrow> exc + bool" where
  "positive x = bind_exc (as_num x) (\<lambda>n. Inr (0 < value_of n))"

section \<open>Result files and the derived metric set\<close>

text \<open>
  A line of the file: blank (\<open>line.strip()\<close> is empty), not JSON (\<open>json.loads\<close> raises),
  or the value \<open>json.loads\<close> returns.
\<close>

datatype line = Blank | Malformed | Parsed pyval

type_synonym metrics = "(pystr \<times> rat) list"

text \<open>\<open>[json.loads(line) for line in f if line.strip()]\<close>: the first malformed line raises.\<close>

fun load_lines :: "line list \<Rightarrow> exc + pyval list" where
  "load_lines [] = Inr []"
| "load_lines (Blank # ls) = load_lines ls"
| "load_lines (Malformed # ls) = Inl Exception"
| "load_lines (Parsed r # ls) =
     (case load_lines ls of Inl e \<Rightarrow> Inl e | Inr rs \<Rightarrow> Inr (r # rs))"

text \<open>The four lists the loop over \<open>results\<close> extends.\<close>

record accs =
  wall_times :: "pyval list"
  decoding_steps :: "pyval list"
  new_tokens :: "pyval list"
  accept_lengths :: "pyval list"

definition empty_accs :: accs where
  "empty_accs = \<lparr>wall_times = [], decoding_steps = [], new_tokens = [], accept_lengths = []\<rparr>"

text \<open>\<open>if key in choice: acc.extend(choice[key])\<close>\<close>

definition extend_if_present :: "pyval list \<Rightarrow> pyval \<Rightarrow> pystr \<Rightarrow> exc + pyval list" where
  "extend_if_present acc choice key =
     bind_exc (contains choice key) (\<lambda>present.
       if present
       then bind_exc (getitem choice key) (\<lambda>v.
              bind_exc (items_of v) (\<lambda>xs. Inr (acc @ xs)))
       else Inr acc)"

text \<open>The body of the loop, for one \<open>result\<close>.\<close>

definition collect_one :: "pyval \<Rightarrow> accs \<Rightarrow> exc + accs" where
  "collect_one result a =
     bind_exc (get_choices result) (\<lambda>choices.
       if truth choices then
         bind_exc (first_item choices) (\<lambda>choice.
         bind_exc (extend_if_present (wall_times a) choice (str ''wall_time'')) (\<lambda>wt.
         bind_exc (extend_if_present (decoding_steps a) choice (str ''decoding_steps'')) (\<lambda>ds.
         bind_exc (extend_if_present (new_tokens a) choice (str ''new_tokens'')) (\<lambda>nt.
         bind_exc (extend_if_present (accept_lengths a) choice (str ''accept_lengths'')) (\<lambda>al.
           Inr \<lparr>wall_times = wt, decoding_steps = ds, new_tokens = nt,
                accept_lengths = al\<rparr>)))))
       else Inr a)"

fun collect :: "pyval list \<Rightarrow> accs \<Rightarrow> exc + accs" where
  "collect [] a = Inr a"
| "collect (result # results) a =
     (case collect_one result a of Inl e \<Rightarrow> Inl e | Inr a' \<Rightarrow> collect results a')"

subsection \<open>Statements on the metric dictionary\<close>

text \<open>
  A statement takes the dictionary and returns the exception it raised, if any, with the
  dictionary as it is then. \<open>metrics[k] = e\<close> leaves the dictionary alone when \<open>e\<close> raises.
\<close>

type_synonym stmt = "metrics \<Rightarrow> exc option \<times> metrics"

definition set_metric :: "pystr \<Rightarrow> exc + num \<Rightarrow> stmt" where
  "set_metric k v m =
     (case v of Inl e \<Rightarrow> (Some e, m) | Inr x \<Rightarrow> (None, AList.update k (value_of x) m))"

fun run :: "stmt list \<Rightarrow> stmt" where
  "run [] m = (None, m)"
| "run (s # ss) m = (case s m of (Some e, m') \<Rightarrow> (Some e, m') | (None, m') \<Rightarrow> run ss m')"

definition if_then :: "bool \<Rightarrow> stmt list \<Rightarrow> stmt" where
  "if_then b ss m = (if b then run ss m else (None, m))"

text \<open>\<open>x = e\<close> followed by statements that read \<open>x\<close>.\<close>

definition assign :: "exc + 'a \<Rightarrow> ('a \<Rightarrow> stmt) \<Rightarrow> stmt" where
  "assign e body m = (case e of Inl x \<Rightarrow> (Some x, m) | Inr v \<Rightarrow> body v m)"

definition num_val :: "num \<Rightarrow> pyval" where
  "num_val n = (case n of I i \<Rightarrow> PInt i | F x \<Rightarrow> PFloat x)"

text \<open>\<open>[nt / wt if wt > 0 else 0 for nt, wt in zip(new_tokens, wall_times)]\<close>\<close>

fun tokens_per_sec :: "pyval list \<Rightarrow> pyval list \<Rightarrow> exc + pyval list" where
  "tokens_per_sec (nt # nts) (wt # wts) =
     bind_exc (positive wt) (\<lambda>p.
     bind_exc (if p
               then bind_exc (as_num nt) (\<lambda>n. bind_exc (as_num wt) (\<lambda>w. py_truediv n w))
               else Inr (I 0)) (\<lambda>t.
     bind_exc (tokens_per_sec nts wts) (\<lambda>ts. Inr (num_val t # ts))))"
| "tokens_per_sec [] wts = Inr []"
| "tokens_per_sec nts [] = Inr []"

text \<open>\<open>sum(1 for al in accept_lengths if al > 0)\<close>\<close>

fun count_positive :: "pyval list \<Rightarrow> exc + int" where
  "count_positive [] = Inr 0"
| "count_positive (al # als) =
     bind_exc (positive al) (\<lambda>p.
     bind_exc (count_positive als) (\<lambda>c. Inr ((if p then 1 else 0) + c)))"

text \<open>\<open>sum(xs) / len(xs)\<close>\<close>

definition mean :: "pyval list \<Rightarrow> exc + num" where
  "mean xs = bind_exc (py_sum xs) (\<lambda>s. py_truediv s (len_num xs))"

text \<open>
  The statistics of \<open>_parse_benchmark_results\<close>: one definition for each top-level
  \<open>if\<close> statement, then the sequence of them.
\<close>

definition wall_time_stats :: "pystr \<Rightarrow> accs \<Rightarrow> stmt" where
  "wall_time_stats benchmark_name a =
     if_then (wall_times a \<noteq> []) [
       set_metric (benchmark_name @ str ''_avg_wall_time'') (mean (wall_times a)),
       set_metric (benchmark_name @ str ''_total_wall_time'') (py_sum (wall_times a)),
       set_metric (benchmark_name @ str ''_max_wall_time'') (py_max (wall_times a)),
       set_metric (benchmark_name @ str ''_min_wall_time'') (py_min (wall_times a))]"

definition decoding_steps_stats :: "pystr \<Rightarrow> accs \<Rightarrow> stmt" where
  "decoding_steps_stats benchmark_name a =
     if_then (decoding_steps a \<noteq> []) [
       set_metric (benchmark_name @ str ''_avg_decoding_steps'') (mean (decoding_steps a)),
       set_metric (benchmark_name @ str ''_total_decoding_steps'') (py_sum (decoding_steps a))]"

definition new_tokens_stats :: "pystr \<Rightarrow> accs \<Rightarrow> stmt" where
  "new_tokens_stats benchmark_name a =
     if_then (new_tokens a \<noteq> []) [
       set_metric (benchmark_name @ str ''_avg_new_tokens'') (mean (new_tokens a)),
       set_metric (benchmark_name @ str ''_total_new_tokens'') (py_sum (new_tokens a)),
       if_then (wall_times a \<noteq> [] \<and> length (wall_times a) = length (new_tokens a)) [
         assign (tokens_per_sec (new_tokens a) (wall_times a)) (\<lambda>tps.
           run [
             set_metric (benchmark_name @ str ''_avg_tokens_per_sec'') (mean tps),
             set_metric (benchmark_name @ str ''_max_tokens_per_sec'') (py_max tps)])]]"

definition accept_lengths_stats :: "pystr \<Rightarrow> accs \<Rightarrow> stmt" where
  "accept_lengths_stats benchmark_name a =
     if_then (accept_lengths a \<noteq> []) [
       set_metric (benchmark_name @ str ''_avg_accept_length'') (mean (accept_lengths a)),
       set_metric (benchmark_name @ str ''_max_accept_length'') (py_max (accept_lengths a)),
       if_then (length (accept_lengths a) > 0) [
         set_metric (benchmark_name @ str ''_acceptance_rate'')
           (bind_exc (count_positive (accept_lengths a)) (\<lambda>c.
              py_truediv (I c) (len_num (accept_lengths a))))]]"

definition derive_metrics :: "pystr \<Rightarrow> accs \<Rightarrow> stmt" where
  "derive_metrics benchmark_name a =
     run [
       wall_time_stats benchmark_name a,
       decoding_steps_stats benchmark_name a,
       new_tokens_stats benchmark_name a,
       accept_lengths_stats benchmark_name a]"

text \<open>
  \<open>MLflowLogger._parse_benchmark_results\<close>. The file is \<open>None\<close> when \<open>open\<close> raises.
  The result is the metric dictionary together with whether the \<open>except Exception\<close>
  clause ran (one \<open>logging.error\<close> call); the dictionary keeps what was written before
  the exception. The function itself never raises an \<open>Exception\<close>.
\<close>

definition parse_benchmark_results :: "line list option \<Rightarrow> pystr \<Rightarrow> metrics \<times> bool" where
  "parse_benchmark_results results_file benchmark_name =
     (case results_file of
        None \<Rightarrow> ([], True)
      | Some f \<Rightarrow>
          (case load_lines f of
             Inl e \<Rightarrow> ([], True)
           | Inr results \<Rightarrow>
               if results = [] then ([], False)
               else (case run [
                            set_metric (benchmark_name @ str ''_total_questions'')
                              (Inr (len_num results)),
                            assign (collect results empty_accs) (derive_metrics benchmark_name)]
                          [] of
                       (Some e, m) \<Rightarrow> (m, True)
                     | (None, m) \<Rightarrow> (m, False))))"

section \<open>Branch names\<close>

text \<open>The character class \<open>[a-zA-Z0-9_-]\<close> of the regular expression, on code points.\<close>

definition in_class :: "nat \<Rightarrow> bool" where
  "in_class c \<longleftrightarrow>
     (of_char CHR ''a'' \<le> c \<and> c \<le> of_char CHR ''z'') \<or>
     (of_char CHR ''A'' \<le> c \<and> c \<le> of_char CHR ''Z'') \<or>
     (of_char CHR ''0'' \<le> c \<and> c \<le> of_char CHR ''9'') \<or>
     c = of_char CHR ''_'' \<or> c = of_char CHR ''-''"

text \<open>\<open>re.sub(r'[^a-zA-Z0-9_-]', '_', name)\<close>\<close>

definition re_sub_unsafe :: "pystr \<Rightarrow> pystr" where
  "re_sub_unsafe name = map (\<lambda>c. if in_class c then c else of_char CHR ''_'') name"

definition startswith :: "pystr \<Rightarrow> pystr \<Rightarrow> bool" where
  "startswith s p = (take (length p) s = p)"

definition sanitize_branch_name :: "pystr \<Rightarrow> pystr" where
  "sanitize_branch_name name =
     (let safe_name = re_sub_unsafe name in
      if startswith safe_name (str ''-'') then str ''model_'' @ drop 1 safe_name
      else safe_name)"

section \<open>Records of the documented shape\<close>

text \<open>
  The input format the specification documents: a line is an object; its \<open>choices\<close>,
  when present, is a list; the first entry of a non-empty list is an object that holds,
  under each of the four metric keys it has, an array of numbers. Only the first entry is
  constrained, since only it is read.
\<close>

definition number :: "pyval \<Rightarrow> bool" where
  "number v = (case v of PInt i \<Rightarrow> True | PFloat x \<Rightarrow> True | _ \<Rightarrow> False)"

definition number_array :: "pyval \<Rightarrow> bool" where
  "number_array v = (case v of PList xs \<Rightarrow> list_all number xs | _ \<Rightarrow> False)"

definition optional_array :: "(pystr \<times> pyval) list \<Rightarrow> pystr \<Rightarrow> bool" where
  "optional_array kv key = (case map_of kv key of None \<Rightarrow> True | Some v \<Rightarrow> number_array v)"

definition well_formed_choice :: "pyval \<Rightarrow> bool" where
  "well_formed_choice c =
     (case c of
        PDict kv \<Rightarrow>
          optional_array kv (str ''wall_time'') \<and> optional_array kv (str ''decoding_steps'') \<and>
          optional_array kv (str ''new_tokens'') \<and> optional_array kv (str ''accept_lengths'')
      | _ \<Rightarrow> False)"

definition well_formed_record :: "pyval \<Rightarrow> bool" where
  "well_formed_record r =
     (case r of
        PDict kv \<Rightarrow>
          (case map_of kv (str ''choices'') of
             None \<Rightarrow> True
           | Some v \<Rightarrow>
               (case v of
                  PList cs \<Rightarrow> (case cs of [] \<Rightarrow> True | c # r \<Rightarrow> well_formed_choice c)
                | _ \<Rightarrow> False))
      | _ \<Rightarrow> False)"

text \<open>
  The flattened sequence of a metric, in the specification's words: for each record in
  order, the array found under the key in the first \<open>choices\<close> entry, an absent array
  counting as empty.
\<close>

definition array_under :: "pystr \<Rightarrow> (pystr \<times> pyval) list \<Rightarrow> pyval list" where
  "array_under key kv =
     (case map_of kv key of
        None \<Rightarrow> []
      | Some v \<Rightarrow> (case v of PList xs \<Rightarrow> xs | _ \<Rightarrow> []))"

definition first_choice_array :: "pystr \<Rightarrow> pyval \<Rightarrow> pyval list" where
  "first_choice_array key r =
     (case r of
        PDict kv \<Rightarrow>
          (case map_of kv (str ''choices'') of
             None \<Rightarrow> []
           | Some v \<Rightarrow>
               (case v of
                  PList cs \<Rightarrow>
                    (case cs of
                       [] \<Rightarrow> []
                     | c # r \<Rightarrow> (case c of PDict ckv \<Rightarrow> array_under key ckv | _ \<Rightarrow> []))
                | _ \<Rightarrow> []))
      | _ \<Rightarrow> [])"

definition spec_flattened :: "pystr \<Rightarrow> pyval list \<Rightarrow> pyval list" where
  "spec_flattened key rs = concat (map (first_choice_array key) rs)"

text \<open>The rational a number item denotes.\<close>

definition val :: "pyval \<Rightarrow> rat" where
  "val v = (case v of PInt i \<Rightarrow> of_int i | PFloat x \<Rightarrow> x | _ \<Rightarrow> 0)"

text \<open>
  A bound that keeps every conversion of an integer to a float in range: the length of
  the list and the absolute values of its integer items add up to less than \<open>int_limit\<close>, which is \<open>2^1023\<close>.
\<close>

definition int_limit :: int where
  "int_limit = 2 ^ 1023"

definition int_abs :: "pyval \<Rightarrow> int" where
  "int_abs v = (case v of PInt i \<Rightarrow> \<bar>i\<bar> | _ \<Rightarrow> 0)"

definition within_float_range :: "pyval list \<Rightarrow> bool" where
  "within_float_range xs \<longleftrightarrow> int (length xs) + sum_list (map int_abs xs) < int_limit"

definition in_float_range :: "pyval list \<Rightarrow> bool" where
  "in_float_range rs \<longleftrightarrow>
     within_float_range (spec_flattened (str ''wall_time'') rs) \<and>
     within_float_range (spec_flattened (str ''decoding_steps'') rs) \<and>
     within_float_range (spec_flattened (str ''new_tokens'') rs) \<and>
     within_float_range (spec_flattened (str ''accept_lengths'') rs)"

text \<open>The per-sample ratio the code computes: the quotient for a positive wall time, else 0.\<close>

definition ratio :: "pyval \<Rightarrow> pyval \<Rightarrow> rat" where
  "ratio nt wt = (if 0 < val wt then val nt / val wt else 0)"

text \<open>Bounds used in the proofs about \<open>sum\<close>.\<close>

definition fits :: "num \<Rightarrow> bool" where
  "fits n = (case n of I t \<Rightarrow> \<bar>t\<bar> < int_limit | F b \<Rightarrow> True)"

definition bound :: "num \<Rightarrow> int" where
  "bound n = (case n of I t \<Rightarrow> \<bar>t\<bar> | F b \<Rightarrow> 0)"

definition small :: "pyval \<Rightarrow> bool" where
  "small x \<longleftrightarrow> number x \<and> int_abs x < int_limit"

definition tps_item :: "pyval \<Rightarrow> pyval \<Rightarrow> pyval" where
  "tps_item nt wt = (if 0 < val wt then PFloat (val nt / val wt) else PInt 0)"

definition range_ok :: "pyval list \<Rightarrow> bool" where
  "range_ok xs \<longleftrightarrow> list_all number xs \<and> within_float_range xs"

text \<open>The four flattened sequences of a list of records.\<close>

definition spec_accs :: "pyval list \<Rightarrow> accs" where
  "spec_accs rs =
     \<lparr>wall_times = spec_flattened (str ''wall_time'') rs,
      decoding_steps = spec_flattened (str ''decoding_steps'') rs,
      new_tokens = spec_flattened (str ''new_tokens'') rs,
      accept_lengths = spec_flattened (str ''accept_lengths'') rs\<rparr>"

subsection \<open>Reading an absent array as an empty one\<close>

text \<open>
  \<open>fill_record\<close> writes an empty array under every metric key that the first choice of a
  record lacks (and a \<open>choices\<close> list with such a choice when the record has none); it is
  used to state that the aggregator cannot tell the two apart.
\<close>

definition add_missing :: "pystr \<Rightarrow> (pystr \<times> pyval) list \<Rightarrow> (pystr \<times> pyval) list" where
  "add_missing key kv = (case map_of kv key of None \<Rightarrow> kv @ [(key, PList [])] | Some v \<Rightarrow> kv)"

definition fill_choice :: "pyval \<Rightarrow> pyval" where
  "fill_choice c =
     (case c of
        PDict kv \<Rightarrow>
          PDict (add_missing (str ''accept_lengths'') (add_missing (str ''new_tokens'')
                  (add_missing (str ''decoding_steps'') (add_missing (str ''wall_time'') kv))))
      | _ \<Rightarrow> c)"

definition fill_record :: "pyval \<Rightarrow> pyval" where
  "fill_record r =
     (case r of
        PDict kv \<Rightarrow>
          (case map_of kv (str ''choices'') of
             None \<Rightarrow> PDict (kv @ [(str ''choices'', PList [fill_choice (PDict [])])])
           | Some v \<Rightarrow>
               (case v of
                  PList cs \<Rightarrow>
                    (case cs of
                       [] \<Rightarrow> r
                     | c # rest \<Rightarrow>
                         PDict (AList.update (str ''choices'') (PList (fill_choice c # rest)) kv))
                | _ \<Rightarrow> r))
      | _ \<Rightarrow> r)"

subsection \<open>Sample records\<close>

text \<open>
  Two wall times, one of them zero, and two token counts; a second choice that must be
  ignored.
\<close>

definition sparse_record :: pyval where
  "sparse_record =
     PDict [(str ''choices'',
       PList [PDict [(str ''wall_time'', PList [PInt 2, PInt 0]),
                     (str ''new_tokens'', PList [PInt 4, PInt 6])],
              PDict [(str ''wall_time'', PList [PInt 100])]])]"

definition full_record :: pyval where
  "full_record =
     PDict [(str ''question_id'', PInt 7),
            (str ''choices'',
       PList [PDict [(str ''wall_time'', PList [PFloat (1 / 2)]),
                     (str ''decoding_steps'', PList [PInt 5]),
                     (str ''new_tokens'', PList [PInt 3]),
                     (str ''accept_lengths'', PList [PInt 0, PInt 3])]])]"

definition no_choices_record :: pyval where
  "no_choices_record = PDict [(str ''question_id'', PInt 8)]"

definition negative_record :: pyval where
  "negative_record =
     PDict [(str ''choices'',
       PList [PDict [(str ''wall_time'', PList [PInt (- 2)]),
                     (str ''new_tokens'', PList [PInt 4])]])]"

definition uneven_record :: pyval where
  "uneven_record =
     PDict [(str ''choices'',
       PList [PDict [(str ''wall_time'', PList [PInt 1]),
                     (str ''new_tokens'', PList [PInt 4, PInt 6])]])]"

text \<open>A 401-digit integer, as a JSON integer literal can be.\<close>

definition huge :: int where
  "huge = 10 ^ 400"

definition huge_record :: pyval where
  "huge_record =
     PDict [(str ''choices'',
       PList [PDict [(str ''wall_time'', PList [PInt 1]),
                     (str ''new_tokens'', PList [PInt huge]),
                     (str ''accept_lengths'', PList [PInt huge])]])]"

section \<open>The versioned store\<close>

text \<open>
  What a call to the store's SDK does: it returns, it raises a subclass of \<open>Exception\<close>,
  or the process is interrupted while it runs. The outcomes are supplied by the
  environment.
\<close>

datatype api_outcome = ApiOk | ApiError | ApiInterrupt

text \<open>
  \<open>LakeFSUploader.create_branch\<close>. The SDK call \<open>branches_api.create_branch\<close> is a
  parameter: it acts on the remote state and returns its outcome.
\<close>

definition create_branch :: "('st \<Rightarrow> api_outcome \<times> 'st) \<Rightarrow> 'st \<Rightarrow> (exc + bool) \<times> 'st" where
  "create_branch api_create_branch st =
     (case api_create_branch st of
        (ApiOk, st') \<Rightarrow> (Inr True, st')
      | (ApiError, st') \<Rightarrow> (Inr False, st')
      | (ApiInterrupt, st') \<Rightarrow> (Inl KeyboardInterrupt, st'))"

text \<open>\<open>LakeFSUploader.upload_file\<close>: every \<open>Exception\<close> becomes \<open>False\<close>.\<close>

definition upload_file :: "api_outcome \<Rightarrow> exc + bool" where
  "upload_file outcome =
     (case outcome of
        ApiOk \<Rightarrow> Inr True
      | ApiError \<Rightarrow> Inr False
      | ApiInterrupt \<Rightarrow> Inl KeyboardInterrupt)"

datatype commit_outcome = CommitId pystr | CommitError | CommitInterrupt

text \<open>\<open>LakeFSUploader.commit_changes\<close>: \<open>result.id\<close>, or \<open>None\<close> on an \<open>Exception\<close>.\<close>

definition commit_changes :: "commit_outcome \<Rightarrow> exc + pystr option" where
  "commit_changes outcome =
     (case outcome of
        CommitId i \<Rightarrow> Inr (Some i)
      | CommitError \<Rightarrow> Inr None
      | CommitInterrupt \<Rightarrow> Inl KeyboardInterrupt)"

text \<open>Python's truth value of an optional string: \<open>None\<close> and \<open>''\<close> are false.\<close>

definition truthy :: "pystr option \<Rightarrow> bool" where
  "truthy s = (case s of None \<Rightarrow> False | Some x \<Rightarrow> x \<noteq> [])"

section \<open>The environment and the trace of a run\<close>

text \<open>
  The calls that leave the process, in the order in which they are made. A tracker
  event is recorded when an enabled \<open>MLflowLogger\<close> forwards the call to the backend.
\<close>

datatype event =
    CreateBranch pystr
  | UploadObject pystr pystr pystr
  | Commit pystr "pystr list" "pystr list"
  | StartRun pystr
  | LogParams "(pystr \<times> pystr) list"
  | LogMetrics metrics
  | LogArtifact
  | EndRun

text \<open>
  Everything the publish module reads from outside: the configuration, the file system,
  the clock, and the outcome of each remote call. \<open>system_info\<close> is \<open>None\<close> when
  \<open>get_system_info\<close> raises (its \<open>import torch\<close> fails). \<open>interrupt_after_publish\<close>
  says that a \<open>KeyboardInterrupt\<close> is delivered in \<open>main\<close> after the publish call and
  the closing of the run, before \<open>sys.exit\<close>.
\<close>

record world =
  mlflow_available :: bool
  mlflow_username :: "pystr option"
  mlflow_password :: "pystr option"
  set_experiment_ok :: bool
  store_init_ok :: bool
  connection_ok :: bool
  branch_prefix :: pystr
  repository :: pystr
  results_dir :: pystr
  results_dir_exists :: bool
  result_files :: "pystr list"
  file_exists :: "pystr \<Rightarrow> bool"
  file_lines :: "pystr \<Rightarrow> line list option"
  now_seconds :: pystr
  now_day :: pystr
  create_branch_outcome :: api_outcome
  upload_outcome :: "pystr \<Rightarrow> api_outcome"
  system_info :: "(pystr \<times> pystr) list option"
  metadata_write_ok :: bool
  metadata_upload_outcome :: api_outcome
  metadata_remove_ok :: bool
  commit_outcome :: commit_outcome
  interrupt_after_publish :: bool

section \<open>The tracker\<close>

record tracker =
  enabled :: bool

text \<open>
  \<open>MLflowLogger.__init__\<close>. \<open>os.environ[key] = value\<close> raises \<open>TypeError\<close> when the
  value is \<open>None\<close>, which is what \<open>mlflow_config.get\<close> returns for an absent key.
\<close>

definition MLflowLogger_init :: "world \<Rightarrow> exc + tracker" where
  "MLflowLogger_init w =
     (if \<not> mlflow_available w then Inr \<lparr>enabled = False\<rparr>
      else case mlflow_username w of
        None \<Rightarrow> Inl Exception
      | Some username \<Rightarrow>
          (case mlflow_password w of
             None \<Rightarrow> Inl Exception
           | Some password \<Rightarrow>
               if set_experiment_ok w then Inr \<lparr>enabled = True\<rparr>
               else Inr \<lparr>enabled = False\<rparr>))"

definition start_run :: "tracker \<Rightarrow> pystr \<Rightarrow> event list" where
  "start_run t run_name = (if \<not> enabled t then [] else [StartRun run_name])"

definition log_params :: "tracker \<Rightarrow> (pystr \<times> pystr) list \<Rightarrow> event list" where
  "log_params t params = (if \<not> enabled t then [] else [LogParams params])"

definition log_metrics :: "tracker \<Rightarrow> metrics \<Rightarrow> event list" where
  "log_metrics t ms = (if \<not> enabled t then [] else [LogMetrics ms])"

definition log_artifacts :: "tracker \<Rightarrow> event list" where
  "log_artifacts t = (if \<not> enabled t then [] else [LogArtifact])"

definition end_run :: "tracker \<Rightarrow> event list" where
  "end_run t = (if enabled t then [EndRun] else [])"

definition log_benchmark_results :: "world \<Rightarrow> tracker \<Rightarrow> pystr \<Rightarrow> pystr \<Rightarrow> event list" where
  "log_benchmark_results w t results_file benchmark_name =
     (if \<not> enabled t \<or> \<not> file_exists w results_file then []
      else let ms = fst (parse_benchmark_results (file_lines w results_file) benchmark_name)
           in if ms \<noteq> [] then log_metrics t ms else [])"

section \<open>Strings and paths\<close>

text \<open>
  \<open>s.replace(old, new)\<close> for a non-empty \<open>old\<close> (both call sites pass a literal): the
  counter is the number of characters of a match still to be dropped.
\<close>

fun replace_from :: "pystr \<Rightarrow> pystr \<Rightarrow> nat \<Rightarrow> pystr \<Rightarrow> pystr" where
  "replace_from old new k [] = []"
| "replace_from old new (Suc k) (c # cs) = replace_from old new k cs"
| "replace_from old new 0 (c # cs) =
     (if old \<noteq> [] \<and> take (length old) (c # cs) = old
      then new @ replace_from old new (length old - 1) cs
      else c # replace_from old new 0 cs)"

definition replace :: "pystr \<Rightarrow> pystr \<Rightarrow> pystr \<Rightarrow> pystr" where
  "replace s old new = replace_from old new 0 s"

text \<open>\<open>os.path.join(a, b)\<close> for a relative \<open>b\<close>.\<close>

definition path_join :: "pystr \<Rightarrow> pystr \<Rightarrow> pystr" where
  "path_join a b =
     (if a = [] then b
      else if last a = of_char CHR ''/'' then a @ b
      else a @ str ''/'' @ b)"

text \<open>\<open>os.path.basename\<close>: what follows the last slash.\<close>

definition basename :: "pystr \<Rightarrow> pystr" where
  "basename p = rev (takeWhile (\<lambda>c. c \<noteq> of_char CHR ''/'') (rev p))"

section \<open>Publishing a directory of results\<close>

record pstate =
  uploaded_files :: "pystr list"
  failed_files :: "pystr list"
  trace :: "event list"

text \<open>The tracker part before the uploads: \<open>start_run\<close>, then the system information.\<close>

definition start_tracking :: "world \<Rightarrow> tracker option \<Rightarrow> pystr \<Rightarrow> pstate \<Rightarrow> exc option \<times> pstate" where
  "start_tracking w mlflow_logger experiment_branch s =
     (case mlflow_logger of
        None \<Rightarrow> (None, s)
      | Some t \<Rightarrow>
          (let s1 = s\<lparr>trace := trace s @ start_run t (str ''benchmark_'' @ now_seconds w)\<rparr> in
           case system_info w of
             None \<Rightarrow> (Some Exception, s1)
           | Some info \<Rightarrow> (None, s1\<lparr>trace := trace s1 @ log_params t info\<rparr>)))"

text \<open>The loop \<open>for local_file in result_files\<close>.\<close>

fun upload_loop ::
  "world \<Rightarrow> tracker option \<Rightarrow> pystr \<Rightarrow> pystr list \<Rightarrow> pstate \<Rightarrow> exc option \<times> pstate" where
  "upload_loop w mlflow_logger experiment_branch [] s = (None, s)"
| "upload_loop w mlflow_logger experiment_branch (local_file # rest) s =
     (let filename = basename local_file;
          remote_path = str ''results/'' @ now_seconds w @ str ''/'' @ filename;
          s1 = s\<lparr>trace := trace s @ [UploadObject experiment_branch local_file remote_path]\<rparr>
      in case upload_file (upload_outcome w local_file) of
           Inl e \<Rightarrow> (Some e, s1)
         | Inr ok \<Rightarrow>
             if ok then
               upload_loop w mlflow_logger experiment_branch rest
                 (s1\<lparr>uploaded_files := uploaded_files s1 @ [remote_path],
                     trace := trace s1 @
                       (case mlflow_logger of
                          None \<Rightarrow> []
                        | Some t \<Rightarrow>
                            log_benchmark_results w t local_file
                              (replace (replace filename (str ''.jsonl'') []) (str ''-'')
                                 (str ''_'')))\<rparr>)
             else
               upload_loop w mlflow_logger experiment_branch rest
                 (s1\<lparr>failed_files := failed_files s1 @ [local_file]\<rparr>))"

text \<open>The metadata manifest: built, written, uploaded, logged and removed.\<close>

definition upload_metadata ::
  "world \<Rightarrow> tracker option \<Rightarrow> pystr \<Rightarrow> pstate \<Rightarrow> exc option \<times> pstate" where
  "upload_metadata w mlflow_logger experiment_branch s =
     (if uploaded_files s = [] then (None, s)
      else case system_info w of
        None \<Rightarrow> (Some Exception, s)
      | Some info \<Rightarrow>
          if \<not> metadata_write_ok w then (Some Exception, s)
          else
            (let metadata_path =
                   str ''results/'' @ now_seconds w @ str ''/experiment_metadata.json'';
                 temp_metadata_file = path_join (results_dir w) (str ''temp_metadata.json'');
                 s1 = s\<lparr>trace := trace s @
                        [UploadObject experiment_branch temp_metadata_file metadata_path]\<rparr>
             in case upload_file (metadata_upload_outcome w) of
                  Inl e \<Rightarrow> (Some e, s1)
                | Inr ok \<Rightarrow>
                    (let s2 = (if ok
                               then s1\<lparr>uploaded_files := uploaded_files s1 @ [metadata_path]\<rparr>
                               else s1);
                         s3 = s2\<lparr>trace := trace s2 @
                                (case mlflow_logger of
                                   None \<Rightarrow> []
                                 | Some t \<Rightarrow> log_artifacts t)\<rparr>
                     in if metadata_remove_ok w then (None, s3) else (Some Exception, s3))))"

text \<open>
  \<open>len(xs)\<close> as a rational: the lengths of the file lists are small integers that are
  only divided by one another.
\<close>

definition py_len :: "'a list \<Rightarrow> rat" where
  "py_len xs = of_nat (length xs)"

definition final_metrics :: "pystr list \<Rightarrow> pystr list \<Rightarrow> pystr list \<Rightarrow> metrics" where
  "final_metrics uploaded failed files =
     [(str ''uploaded_files_count'', py_len uploaded),
      (str ''failed_files_count'', py_len failed),
      (str ''total_files_count'', py_len files),
      (str ''upload_success_rate'',
         if files \<noteq> [] then py_len uploaded / py_len files else 0)]"

text \<open>The commit and the final report.\<close>

definition commit_and_report ::
  "world \<Rightarrow> tracker option \<Rightarrow> pystr \<Rightarrow> pstate \<Rightarrow> (exc + bool) \<times> pstate" where
  "commit_and_report w mlflow_logger experiment_branch s =
     (if uploaded_files s = [] then (Inr False, s)
      else
        (let s1 = s\<lparr>trace := trace s @
                    [Commit experiment_branch (uploaded_files s)
                       (map basename (failed_files s))]\<rparr>
         in case commit_changes (commit_outcome w) of
              Inl e \<Rightarrow> (Inl e, s1)
            | Inr commit_id \<Rightarrow>
                if truthy commit_id then
                  (Inr True,
                   s1\<lparr>trace := trace s1 @
                       (case mlflow_logger of
                          None \<Rightarrow> []
                        | Some t \<Rightarrow>
                            log_metrics t
                              (final_metrics (uploaded_files s1) (failed_files s1)
                                 (result_files w)) @
                            log_params t
                              [(str ''lakefs_commit_id'',
                                  (case commit_id of None \<Rightarrow> [] | Some i \<Rightarrow> i)),
                               (str ''lakefs_branch'', experiment_branch),
                               (str ''lakefs_repository'', repository w)])\<rparr>)
                else (Inr False, s1)))"

text \<open>\<open>upload_benchmark_results\<close>: the verdict or the exception, with the final state.\<close>

definition upload_benchmark_results :: "world \<Rightarrow> tracker option \<Rightarrow> (exc + bool) \<times> pstate" where
  "upload_benchmark_results w mlflow_logger =
     (let s0 = \<lparr>uploaded_files = [], failed_files = [], trace = []\<rparr> in
      if \<not> store_init_ok w then (Inr False, s0)
      else if \<not> connection_ok w then (Inr False, s0)
      else if \<not> results_dir_exists w then (Inr False, s0)
      else if result_files w = [] then (Inr False, s0)
      else
        (let experiment_branch = branch_prefix w @ str ''_'' @ now_seconds w;
             s1 = s0\<lparr>trace := [CreateBranch experiment_branch]\<rparr>
         in case fst (create_branch (\<lambda>u. (create_branch_outcome w, u)) ()) of
              Inl e \<Rightarrow> (Inl e, s1)
            | Inr created \<Rightarrow>
                (case start_tracking w mlflow_logger experiment_branch s1 of
                   (Some e, s2) \<Rightarrow> (Inl e, s2)
                 | (None, s2) \<Rightarrow>
                     (case upload_loop w mlflow_logger experiment_branch (result_files w) s2 of
                        (Some e, s3) \<Rightarrow> (Inl e, s3)
                      | (None, s3) \<Rightarrow>
                          (case upload_metadata w mlflow_logger experiment_branch s3 of
                             (Some e, s4) \<Rightarrow> (Inl e, s4)
                           | (None, s4) \<Rightarrow>
                               commit_and_report w mlflow_logger experiment_branch s4)))))"

section \<open>Publishing a single file\<close>

definition upload_single_result ::
  "world \<Rightarrow> pystr \<Rightarrow> pystr option \<Rightarrow> (exc + bool) \<times> event list" where
  "upload_single_result w result_file model_name =
     (if \<not> file_exists w result_file then (Inr False, [])
      else if \<not> store_init_ok w then (Inr False, [])
      else if \<not> connection_ok w then (Inr False, [])
      else
        (let timestamp = now_day w;
             experiment_branch =
               (case model_name of
                  None \<Rightarrow> branch_prefix w @ str ''_single_'' @ timestamp
                | Some n \<Rightarrow>
                    if n \<noteq> []
                    then branch_prefix w @ str ''_'' @ sanitize_branch_name n @ str ''_'' @ timestamp
                    else branch_prefix w @ str ''_single_'' @ timestamp);
             tr1 = [CreateBranch experiment_branch]
         in case fst (create_branch (\<lambda>u. (create_branch_outcome w, u)) ()) of
              Inl e \<Rightarrow> (Inl e, tr1)
            | Inr created \<Rightarrow>
                (let filename = basename result_file;
                     remote_path = str ''results/'' @ timestamp @ str ''/'' @ filename;
                     tr2 = tr1 @ [UploadObject experiment_branch result_file remote_path]
                 in case upload_file (upload_outcome w result_file) of
                      Inl e \<Rightarrow> (Inl e, tr2)
                    | Inr ok \<Rightarrow>
                        if ok then
                          (let tr3 = tr2 @ [Commit experiment_branch [remote_path] []] in
                           case commit_changes (commit_outcome w) of
                             Inl e \<Rightarrow> (Inl e, tr3)
                           | Inr commit_id \<Rightarrow> (Inr (truthy commit_id), tr3))
                        else (Inr False, tr2))))"

section \<open>The entry point\<close>

record args =
  single_file :: "pystr option"
  model_name :: "pystr option"
  no_mlflow :: bool

text \<open>A local variable of \<open>main\<close> is unbound until its first assignment.\<close>

datatype 'a local_var = Unbound | Bound 'a

text \<open>
  How the process ends: \<open>sys.exit(code)\<close>, or an exception that no clause catches, for
  which the interpreter prints a traceback and exits with status 1 (130 for an
  unhandled \<open>KeyboardInterrupt\<close>).
\<close>

datatype ending = SysExit int | Uncaught exc

definition exit_code :: "ending \<Rightarrow> int" where
  "exit_code e =
     (case e of
        SysExit n \<Rightarrow> n
      | Uncaught x \<Rightarrow> (if x = KeyboardInterrupt then 130 else 1))"

text \<open>
  The two \<open>except\<close> clauses of \<open>main\<close>. Both read \<open>mlflow_logger\<close>; an exception raised
  inside a clause is not caught by its sibling.
\<close>

definition except_clauses ::
  "exc \<Rightarrow> tracker option local_var \<Rightarrow> event list \<Rightarrow> ending \<times> event list" where
  "except_clauses e mlflow_logger tr =
     (let code = (case e of KeyboardInterrupt \<Rightarrow> 130 | _ \<Rightarrow> 1) in
      case mlflow_logger of
        Unbound \<Rightarrow> (Uncaught UnboundLocalError, tr)
      | Bound None \<Rightarrow> (SysExit code, tr)
      | Bound (Some t) \<Rightarrow> (SysExit code, tr @ end_run t))"

text \<open>The end of the \<open>try\<close> body: the final log line and \<open>sys.exit(0 if success else 1)\<close>.\<close>

definition finish ::
  "world \<Rightarrow> bool \<Rightarrow> tracker option local_var \<Rightarrow> event list \<Rightarrow> ending \<times> event list" where
  "finish w success mlflow_logger tr =
     (if interrupt_after_publish w then except_clauses KeyboardInterrupt mlflow_logger tr
      else (SysExit (if success then 0 else 1), tr))"

definition main :: "args \<Rightarrow> world \<Rightarrow> ending \<times> event list" where
  "main a w =
     (if truthy (single_file a) then
        (case upload_single_result w (case single_file a of None \<Rightarrow> [] | Some f \<Rightarrow> f)
                (model_name a) of
           (Inl e, tr) \<Rightarrow> except_clauses e Unbound tr
         | (Inr success, tr) \<Rightarrow> finish w success Unbound tr)
      else
        (case (if no_mlflow a then Inr None
               else (case MLflowLogger_init w of Inl e \<Rightarrow> Inl e | Inr t \<Rightarrow> Inr (Some t))) of
           Inl e \<Rightarrow> except_clauses e (Bound None) []
         | Inr mlflow_logger \<Rightarrow>
             (case upload_benchmark_results w mlflow_logger of
                (Inl e, s) \<Rightarrow> except_clauses e (Bound mlflow_logger) (trace s)
              | (Inr success, s) \<Rightarrow>
                  finish w success (Bound mlflow_logger)
                    (trace s @ (case mlflow_logger of None \<Rightarrow> [] | Some t \<Rightarrow> end_run t)))))"

section \<open>Observing a trace\<close>

fun is_commit :: "event \<Rightarrow> bool" where
  "is_commit (Commit b u f) = True"
| "is_commit e = False"

text \<open>Whether a commit was attempted, and how often the run was ended at the backend.\<close>

definition commit_attempted :: "event list \<Rightarrow> bool" where
  "commit_attempted tr = list_ex is_commit tr"

definition end_runs :: "event list \<Rightarrow> nat" where
  "end_runs tr = length (filter (\<lambda>e. e = EndRun) tr)"

section \<open>Sample environments\<close>

definition sample_world :: world where
  "sample_world =
     \<lparr>mlflow_available = True, mlflow_username = Some (str ''u''),
      mlflow_password = Some (str ''p''), set_experiment_ok = True, store_init_ok = True,
      connection_ok = True, branch_prefix = str ''experiment'', repository = str ''repo'',
      results_dir = str ''out'', results_dir_exists = True,
      result_files = [str ''out/a.jsonl'', str ''out/b-1.jsonl''],
      file_exists = (\<lambda>p. True), file_lines = (\<lambda>p. Some [Parsed full_record]),
      now_seconds = str ''20240101_120000'', now_day = str ''20240101'',
      create_branch_outcome = ApiOk, upload_outcome = (\<lambda>p. ApiOk), system_info = Some [],
      metadata_write_ok = True, metadata_upload_outcome = ApiOk, metadata_remove_ok = True,
      commit_outcome = CommitId (str ''c0ffee''), interrupt_after_publish = False\<rparr>"

definition failing_world :: world where
  "failing_world = sample_world\<lparr>upload_outcome := (\<lambda>p. ApiError)\<rparr>"

definition interrupted_world :: world where
  "interrupted_world = sample_world\<lparr>upload_outcome := (\<lambda>p. ApiInterrupt)\<rparr>"

definition no_credentials_world :: world where
  "no_credentials_world = sample_world\<lparr>mlflow_username := None, mlflow_password := None\<rparr>"

definition late_interrupt_world :: world where
  "late_interrupt_world = sample_world\<lparr>interrupt_after_publish := True\<rparr>"

definition batch_args :: args where
  "batch_args = \<lparr>single_file = None, model_name = None, no_mlflow = False\<rparr>"

definition single_args :: args where
  "single_args =
     \<lparr>single_file = Some (str ''out/a.jsonl''), model_name = Some (str ''--bad/name''),
      no_mlflow = False\<rparr>"

section \<open>A store that rejects duplicate branches\<close>

text \<open>
  The remote side of \<open>branches_api.create_branch\<close> is not part of this repository. This
  is the behaviour of a lakeFS server, used as an instance of the parameter of
  \<open>create_branch\<close>: the request fails (404) when the source branch does not exist and
  fails (409 Conflict) when the branch name is taken; the SDK raises an \<open>ApiException\<close>
  for both.
\<close>

record store =
  branches :: "(pystr \<times> pystr) list"

definition lakefs_create_branch :: "pystr \<Rightarrow> pystr \<Rightarrow> pystr \<Rightarrow> store \<Rightarrow> api_outcome \<times> store" where
  "lakefs_create_branch repo branch_name source_branch st =
     (if (repo, source_branch) \<notin> set (branches st) then (ApiError, st)
      else if (repo, branch_name) \<in> set (branches st) then (ApiError, st)
      else (ApiOk, st\<lparr>branches := branches st @ [(repo, branch_name)]\<rparr>))"

definition sample_store :: store where
  "sample_store = \<lparr>branches = [(str ''repo'', str ''main'')]\<rparr>"

section \<open>Facts about the metric aggregator\<close>

lemma str_eq_iff [simp]: "str a = str b \<longleftrightarrow> a = b"
  unfolding str_def by (simp add: inj_map_eq_map inj_on_def)

lemma bind_exc_simps [simp]:
  "bind_exc (Inl e) f = Inl e"
  "bind_exc (Inr x) f = f x"
  by (simp_all add: bind_exc_def)

lemma extend_if_present_dict:
  "optional_array kv key \<Longrightarrow>
     extend_if_present acc (PDict kv) key = Inr (acc @ array_under key kv)"
proof (cases "map_of kv key")
  case None
  then have "key \<notin> fst ` set kv"
    by (simp add: map_of_eq_None_iff)
  then show ?thesis
    using None by (simp add: extend_if_present_def contains_def array_under_def)
next
  case (Some v)
  then have k: "key \<in> fst ` set kv"
    by (metis map_of_eq_None_iff option.distinct(1))
  assume "optional_array kv key"
  then obtain xs where v: "v = PList xs"
    using Some by (cases v) (simp_all add: optional_array_def number_array_def)
  show ?thesis
    using Some k v
    by (simp add: extend_if_present_def contains_def getitem_def items_of_def array_under_def)
qed

lemma collect_one_well_formed:
  assumes "well_formed_record r"
  shows "collect_one r a =
     Inr \<lparr>wall_times = wall_times a @ first_choice_array (str ''wall_time'') r,
          decoding_steps = decoding_steps a @ first_choice_array (str ''decoding_steps'') r,
          new_tokens = new_tokens a @ first_choice_array (str ''new_tokens'') r,
          accept_lengths = accept_lengths a @ first_choice_array (str ''accept_lengths'') r\<rparr>"
proof -
  obtain kv where r: "r = PDict kv"
    using assms by (cases r) (simp_all add: well_formed_record_def)
  show ?thesis
  proof (cases "map_of kv (str ''choices'')")
    case None
    then show ?thesis
      using r
      by (simp add: collect_one_def get_choices_def truth_def first_item_def
            extend_if_present_def contains_def first_choice_array_def)
  next
    case (Some v)
    then obtain cs where v: "v = PList cs"
      using assms r by (cases v) (simp_all add: well_formed_record_def)
    show ?thesis
    proof (cases cs)
      case Nil
      then show ?thesis
        using r Some v
        by (simp add: collect_one_def get_choices_def truth_def first_choice_array_def)
    next
      case (Cons c rest)
      then have wf: "well_formed_choice c"
        using assms r Some v by (simp add: well_formed_record_def)
      then obtain ckv where c: "c = PDict ckv"
        by (cases c) (simp_all add: well_formed_choice_def)
      have o: "optional_array ckv (str ''wall_time'')" "optional_array ckv (str ''decoding_steps'')"
        "optional_array ckv (str ''new_tokens'')" "optional_array ckv (str ''accept_lengths'')"
        using wf c by (simp_all add: well_formed_choice_def)
      show ?thesis
        using r Some v Cons c
        by (simp add: collect_one_def get_choices_def truth_def first_item_def
              first_choice_array_def extend_if_present_dict [OF o(1)]
              extend_if_present_dict [OF o(2)] extend_if_present_dict [OF o(3)]
              extend_if_present_dict [OF o(4)])
    qed
  qed
qed

text \<open>The loop computes the flattened sequences of the specification.\<close>

lemma collect_well_formed:
  "list_all well_formed_record rs \<Longrightarrow>
     collect rs a =
       Inr \<lparr>wall_times = wall_times a @ spec_flattened (str ''wall_time'') rs,
            decoding_steps = decoding_steps a @ spec_flattened (str ''decoding_steps'') rs,
            new_tokens = new_tokens a @ spec_flattened (str ''new_tokens'') rs,
            accept_lengths = accept_lengths a @ spec_flattened (str ''accept_lengths'') rs\<rparr>"
proof (induction rs arbitrary: a)
  case Nil
  then show ?case by (simp add: spec_flattened_def)
next
  case (Cons r rs)
  then have wf: "well_formed_record r" and wfs: "list_all well_formed_record rs"
    by simp_all
  show ?case
    by (simp add: collect_one_well_formed [OF wf] Cons.IH [OF wfs] spec_flattened_def)
qed

lemma collect_not_dict:
  "\<exists>r \<in> set rs. (case r of PDict kv \<Rightarrow> False | _ \<Rightarrow> True) \<Longrightarrow> \<exists>e. collect rs a = Inl e"
proof (induction rs arbitrary: a)
  case Nil
  then show ?case by simp
next
  case (Cons r rs)
  show ?case
  proof (cases "collect_one r a")
    case (Inl e)
    then show ?thesis by simp
  next
    case (Inr a')
    then have "\<not> (case r of PDict kv \<Rightarrow> False | _ \<Rightarrow> True)"
      by (cases r) (simp_all add: collect_one_def get_choices_def)
    then have "\<exists>r \<in> set rs. (case r of PDict kv \<Rightarrow> False | _ \<Rightarrow> True)"
      using Cons.prems by auto
    then show ?thesis
      using Cons.IH [of a'] Inr by simp
  qed
qed

lemma float_limit_gt: "(of_int int_limit :: rat) < float_limit"
  by (simp add: float_limit_def int_limit_def)

lemma abs_below_limit: "\<bar>i\<bar> < int_limit \<Longrightarrow> \<bar>of_int i :: rat\<bar> < float_limit"
proof -
  assume "\<bar>i\<bar> < int_limit"
  then have "(of_int \<bar>i\<bar> :: rat) < of_int int_limit"
    by (simp only: of_int_less_iff)
  then show ?thesis
    using float_limit_gt by simp
qed

lemma to_float_ok: "\<bar>i\<bar> < int_limit \<Longrightarrow> to_float i = Inr (of_int i)"
proof -
  assume "\<bar>i\<bar> < int_limit"
  then have "\<not> float_limit \<le> \<bar>of_int i :: rat\<bar>"
    using abs_below_limit [of i] by linarith
  then show ?thesis
    by (simp add: to_float_def)
qed

lemma int_abs_nonneg: "0 \<le> int_abs x"
  by (cases x) (simp_all add: int_abs_def)

lemma mass_nonneg: "0 \<le> sum_list (map int_abs xs)"
  by (induction xs) (simp_all add: int_abs_nonneg)

lemma int_abs_le_mass: "x \<in> set xs \<Longrightarrow> int_abs x \<le> sum_list (map int_abs xs)"
proof (induction xs)
  case Nil
  then show ?case by simp
next
  case (Cons y ys)
  have "0 \<le> int_abs y" "0 \<le> sum_list (map int_abs ys)"
    by (rule int_abs_nonneg, rule mass_nonneg)
  then show ?case
    using Cons by auto
qed

lemma as_num_number: "number x \<Longrightarrow> \<exists>n. as_num x = Inr n \<and> value_of n = val x \<and> bound n = int_abs x"
  by (cases x) (simp_all add: number_def as_num_def value_of_def val_def bound_def int_abs_def)

lemma py_add_ok:
  assumes "bound a + bound b < int_limit"
  shows "\<exists>n. py_add a b = Inr n \<and> value_of n = value_of a + value_of b \<and>
              bound n \<le> bound a + bound b"
proof (cases a)
  case (I x)
  note a = this
  show ?thesis
  proof (cases b)
    case (I y)
    then show ?thesis
      using a by (simp add: py_add_def value_of_def bound_def)
  next
    case (F y)
    then have "\<bar>x\<bar> < int_limit"
      using assms a by (simp add: bound_def)
    then show ?thesis
      using a F by (simp add: py_add_def to_float_ok value_of_def bound_def)
  qed
next
  case (F x)
  note a = this
  show ?thesis
  proof (cases b)
    case (I y)
    then have "\<bar>y\<bar> < int_limit"
      using assms a by (simp add: bound_def)
    then show ?thesis
      using a I by (simp add: py_add_def to_float_ok value_of_def bound_def)
  next
    case (F y)
    then show ?thesis
      using a by (simp add: py_add_def value_of_def bound_def)
  qed
qed

lemma sum_from_ok:
  "list_all number xs \<Longrightarrow> bound acc + sum_list (map int_abs xs) < int_limit \<Longrightarrow>
     \<exists>n. sum_from acc xs = Inr n \<and> value_of n = value_of acc + sum_list (map val xs) \<and>
         bound n \<le> bound acc + sum_list (map int_abs xs)"
proof (induction xs arbitrary: acc)
  case Nil
  then show ?case by simp
next
  case (Cons x xs)
  then have nx: "number x" and nxs: "list_all number xs"
    by simp_all
  obtain n where n: "as_num x = Inr n" "value_of n = val x" "bound n = int_abs x"
    using as_num_number [OF nx] by blast
  have b: "bound acc + bound n < int_limit"
    using Cons.prems(2) n(3) mass_nonneg [of xs] by auto
  obtain acc' where acc': "py_add acc n = Inr acc'"
    "value_of acc' = value_of acc + value_of n" "bound acc' \<le> bound acc + bound n"
    using py_add_ok [OF b] by blast
  have b': "bound acc' + sum_list (map int_abs xs) < int_limit"
    using Cons.prems(2) acc'(3) n(3) by simp
  obtain r where r: "sum_from acc' xs = Inr r"
    "value_of r = value_of acc' + sum_list (map val xs)"
    "bound r \<le> bound acc' + sum_list (map int_abs xs)"
    using Cons.IH [OF nxs b'] by blast
  show ?case
    using n acc' r by (simp add: algebra_simps)
qed

lemma py_sum_ok:
  assumes "list_all number xs" "within_float_range xs"
  shows "\<exists>n. py_sum xs = Inr n \<and> value_of n = sum_list (map val xs) \<and>
              bound n + int (length xs) < int_limit"
proof -
  have "bound (I 0) + sum_list (map int_abs xs) < int_limit"
    using assms(2) by (simp add: within_float_range_def bound_def)
  from sum_from_ok [OF assms(1) this] obtain n where
    "sum_from (I 0) xs = Inr n" "value_of n = value_of (I 0) + sum_list (map val xs)"
    "bound n \<le> bound (I 0) + sum_list (map int_abs xs)"
    by blast
  then show ?thesis
    using assms(2) by (auto simp add: py_sum_def value_of_def bound_def within_float_range_def)
qed

lemma abs_div_le:
  fixes t :: int and k :: nat
  assumes "0 < k"
  shows "\<bar>(of_int t :: rat) / of_nat k\<bar> \<le> \<bar>of_int t\<bar>"
proof -
  have "(1::rat) \<le> of_nat k"
    using assms by simp
  then have "\<bar>of_int t :: rat\<bar> / of_nat k \<le> \<bar>of_int t\<bar> / 1"
    by (intro divide_left_mono) simp_all
  then show ?thesis
    by simp
qed

lemma bound_nonneg: "0 \<le> bound n"
  by (cases n) (simp_all add: bound_def)

lemma truediv_len_ok:
  assumes "bound n < int_limit" "int k < int_limit" "0 < k"
  shows "py_truediv n (I (int k)) = Inr (F (value_of n / of_nat k))"
proof (cases n)
  case (I t)
  then have "\<bar>t\<bar> < int_limit"
    using assms(1) by (simp add: bound_def)
  then have "\<bar>(of_int t :: rat) / of_nat k\<bar> < float_limit"
    using abs_div_le [OF assms(3), of t] abs_below_limit [of t] by linarith
  then show ?thesis
    using I assms(3) by (simp add: py_truediv_def value_of_def)
next
  case (F x)
  have "\<bar>int k\<bar> < int_limit"
    using assms(2) by simp
  then show ?thesis
    using F assms(3) by (simp add: py_truediv_def to_float_ok float_div_def value_of_def)
qed

lemma mean_ok:
  assumes "list_all number xs" "within_float_range xs" "xs \<noteq> []"
  shows "mean xs = Inr (F (sum_list (map val xs) / of_nat (length xs)))"
proof -
  obtain n where n: "py_sum xs = Inr n" "value_of n = sum_list (map val xs)"
    "bound n + int (length xs) < int_limit"
    using py_sum_ok [OF assms(1,2)] by blast
  have p: "0 < length xs"
    using assms(3) by simp
  have b: "bound n < int_limit" "int (length xs) < int_limit"
    using n(3) bound_nonneg [of n] by simp_all
  from truediv_len_ok [OF b p] show ?thesis
    using n by (simp add: mean_def len_num_def)
qed

lemma max_from_ok:
  "list_all number xs \<Longrightarrow>
     \<exists>n. max_from best xs = Inr n \<and> value_of n = fold max (map val xs) (value_of best)"
proof (induction xs arbitrary: best)
  case Nil
  then show ?case by simp
next
  case (Cons x xs)
  then have nx: "number x" and nxs: "list_all number xs"
    by simp_all
  obtain n where n: "as_num x = Inr n" "value_of n = val x"
    using as_num_number [OF nx] by blast
  have m: "value_of (if value_of best < value_of n then n else best) = max (val x) (value_of best)"
    using n(2) by (simp add: max_def)
  show ?case
    using Cons.IH [OF nxs, of "if value_of best < value_of n then n else best"] n m
    by simp
qed

lemma min_from_ok:
  "list_all number xs \<Longrightarrow>
     \<exists>n. min_from best xs = Inr n \<and> value_of n = fold min (map val xs) (value_of best)"
proof (induction xs arbitrary: best)
  case Nil
  then show ?case by simp
next
  case (Cons x xs)
  then have nx: "number x" and nxs: "list_all number xs"
    by simp_all
  obtain n where n: "as_num x = Inr n" "value_of n = val x"
    using as_num_number [OF nx] by blast
  have m: "value_of (if value_of n < value_of best then n else best) = min (val x) (value_of best)"
    using n(2) by (simp add: min_def)
  show ?case
    using Cons.IH [OF nxs, of "if value_of n < value_of best then n else best"] n m
    by simp
qed

lemma py_max_ok:
  assumes "list_all number xs" "xs \<noteq> []"
  shows "\<exists>n. py_max xs = Inr n \<and> value_of n = Max (set (map val xs))"
proof -
  obtain x r where xs: "xs = x # r"
    using assms(2) by (cases xs) auto
  obtain n where n: "as_num x = Inr n" "value_of n = val x"
    using as_num_number [of x] assms(1) xs by auto
  obtain m where m: "max_from n r = Inr m" "value_of m = fold max (map val r) (value_of n)"
    using max_from_ok [of r n] assms(1) xs by auto
  have "Max (set (map val xs)) = fold max (map val r) (val x)"
    using Max.set_eq_fold [of "val x" "map val r"] xs by simp
  then show ?thesis
    using xs n m by (simp add: py_max_def)
qed

lemma py_min_ok:
  assumes "list_all number xs" "xs \<noteq> []"
  shows "\<exists>n. py_min xs = Inr n \<and> value_of n = Min (set (map val xs))"
proof -
  obtain x r where xs: "xs = x # r"
    using assms(2) by (cases xs) auto
  obtain n where n: "as_num x = Inr n" "value_of n = val x"
    using as_num_number [of x] assms(1) xs by auto
  obtain m where m: "min_from n r = Inr m" "value_of m = fold min (map val r) (value_of n)"
    using min_from_ok [of r n] assms(1) xs by auto
  have "Min (set (map val xs)) = fold min (map val r) (val x)"
    using Min.set_eq_fold [of "val x" "map val r"] xs by simp
  then show ?thesis
    using xs n m by (simp add: py_min_def)
qed

lemma positive_number: "number x \<Longrightarrow> positive x = Inr (0 < val x)"
  using as_num_number [of x] by (auto simp add: positive_def)

lemma count_positive_ok:
  "list_all number xs \<Longrightarrow>
     count_positive xs = Inr (int (length (filter (\<lambda>x. 0 < val x) xs)))"
  by (induction xs) (simp_all add: positive_number)

lemma small_of_range_ok: "range_ok xs \<Longrightarrow> list_all small xs"
proof -
  assume r: "range_ok xs"
  have "\<And>x. x \<in> set xs \<Longrightarrow> small x"
  proof -
    fix x
    assume x: "x \<in> set xs"
    have "int_abs x \<le> sum_list (map int_abs xs)"
      using int_abs_le_mass [OF x] .
    moreover have "int (length xs) + sum_list (map int_abs xs) < int_limit"
      using r by (simp add: range_ok_def within_float_range_def)
    ultimately have "int_abs x < int_limit"
      by linarith
    moreover have "number x"
      using r x by (simp add: range_ok_def list_all_iff)
    ultimately show "small x"
      by (simp add: small_def)
  qed
  then show ?thesis
    by (simp add: list_all_iff)
qed

lemma tps_step:
  assumes "small nt" "small wt" "0 < val wt"
  shows "bind_exc (as_num nt) (\<lambda>n. bind_exc (as_num wt) (\<lambda>w. py_truediv n w)) =
           Inr (F (val nt / val wt))"
proof (cases nt)
  case (PInt x)
  note nt = this
  have sx: "\<bar>x\<bar> < int_limit"
    using assms(1) nt by (simp add: small_def int_abs_def)
  show ?thesis
  proof (cases wt)
    case (PInt y)
    then have y: "0 < y"
      using assms(3) by (simp add: val_def)
    then have "\<bar>(of_int x :: rat) / of_nat (nat y)\<bar> \<le> \<bar>of_int x\<bar>"
      by (intro abs_div_le) simp
    then have "\<bar>(of_int x :: rat) / of_int y\<bar> < float_limit"
      using y abs_below_limit [OF sx] by simp
    then show ?thesis
      using nt PInt y by (simp add: as_num_def py_truediv_def val_def)
  next
    case (PFloat y)
    then show ?thesis
      using nt assms(3) sx
      by (simp add: as_num_def py_truediv_def to_float_ok float_div_def val_def)
  qed (use assms(2) in \<open>simp_all add: small_def number_def\<close>)
next
  case (PFloat x)
  note nt = this
  show ?thesis
  proof (cases wt)
    case (PInt y)
    then have "\<bar>y\<bar> < int_limit"
      using assms(2) by (simp add: small_def int_abs_def)
    then show ?thesis
      using nt PInt assms(3)
      by (simp add: as_num_def py_truediv_def to_float_ok float_div_def val_def)
  next
    case (PFloat y)
    then show ?thesis
      using nt assms(3) by (simp add: as_num_def py_truediv_def float_div_def val_def)
  qed (use assms(2) in \<open>simp_all add: small_def number_def\<close>)
qed (use assms(1) in \<open>simp_all add: small_def number_def\<close>)

lemma tokens_per_sec_ok:
  "list_all small nts \<Longrightarrow> list_all small wts \<Longrightarrow>
     tokens_per_sec nts wts = Inr (map (\<lambda>(nt, wt). tps_item nt wt) (zip nts wts))"
proof (induction nts wts rule: tokens_per_sec.induct)
  case (1 nt nts wt wts)
  then have s: "small nt" "small wt" and ss: "list_all small nts" "list_all small wts"
    by simp_all
  have p: "positive wt = Inr (0 < val wt)"
    using s(2) by (simp add: positive_number small_def)
  show ?case
  proof (cases "0 < val wt")
    case True
    then show ?thesis
      using p tps_step [OF s True] "1.IH" [OF ss]
      by (simp add: tps_item_def num_val_def)
  next
    case False
    then show ?thesis
      using p "1.IH" [OF ss]
      by (simp add: tps_item_def num_val_def)
  qed
qed simp_all

lemma tps_item_props:
  "number (tps_item nt wt)" "int_abs (tps_item nt wt) = 0" "val (tps_item nt wt) = ratio nt wt"
  by (simp_all add: tps_item_def number_def int_abs_def val_def ratio_def)

lemma tps_range_ok:
  assumes "range_ok nts"
  shows "range_ok (map (\<lambda>(nt, wt). tps_item nt wt) (zip nts wts))"
proof -
  have n: "list_all number (map (\<lambda>(nt, wt). tps_item nt wt) (zip nts wts))"
    by (auto simp add: list_all_iff tps_item_props)
  have z: "sum_list (map int_abs (map (\<lambda>(nt, wt). tps_item nt wt) (zip nts wts))) = 0"
    by (induction nts wts rule: list_induct2') (simp_all add: tps_item_props)
  have "int (length nts) < int_limit"
    using assms mass_nonneg [of nts] by (simp add: range_ok_def within_float_range_def)
  then have "int (length (zip nts wts)) < int_limit"
    by simp
  then show ?thesis
    using n z by (simp add: range_ok_def within_float_range_def)
qed

lemma tps_val:
  "map val (map (\<lambda>(nt, wt). tps_item nt wt) (zip nts wts)) =
     map (\<lambda>(nt, wt). ratio nt wt) (zip nts wts)"
  by (simp add: tps_item_props split_def)

lemma set_metric_Inr [simp]: "set_metric k (Inr x) m = (None, AList.update k (value_of x) m)"
  by (simp add: set_metric_def)

lemma set_metric_Inl [simp]: "set_metric k (Inl e) m = (Some e, m)"
  by (simp add: set_metric_def)

lemma assign_simps [simp]:
  "assign (Inl e) body m = (Some e, m)"
  "assign (Inr v) body m = body v m"
  by (simp_all add: assign_def)

lemma value_of_F [simp]: "value_of (F x) = x"
  by (simp add: value_of_def)

lemma value_of_I [simp]: "value_of (I i) = of_int i"
  by (simp add: value_of_def)

lemma wall_time_stats_eq:
  assumes "range_ok (wall_times a)"
  shows "wall_time_stats bn a m = (None,
     if wall_times a = [] then m
     else AList.update (bn @ str ''_min_wall_time'') (Min (set (map val (wall_times a))))
           (AList.update (bn @ str ''_max_wall_time'') (Max (set (map val (wall_times a))))
             (AList.update (bn @ str ''_total_wall_time'') (sum_list (map val (wall_times a)))
               (AList.update (bn @ str ''_avg_wall_time'')
                  (sum_list (map val (wall_times a)) / of_nat (length (wall_times a))) m))))"
proof (cases "wall_times a = []")
  case True
  then show ?thesis by (simp add: wall_time_stats_def if_then_def)
next
  case False
  have n: "list_all number (wall_times a)" and w: "within_float_range (wall_times a)"
    using assms by (simp_all add: range_ok_def)
  obtain s where s: "py_sum (wall_times a) = Inr s" "value_of s = sum_list (map val (wall_times a))"
    using py_sum_ok [OF n w] by blast
  obtain mx where mx: "py_max (wall_times a) = Inr mx"
    "value_of mx = Max (set (map val (wall_times a)))"
    using py_max_ok [OF n False] by blast
  obtain mn where mn: "py_min (wall_times a) = Inr mn"
    "value_of mn = Min (set (map val (wall_times a)))"
    using py_min_ok [OF n False] by blast
  show ?thesis
    using False s mx mn
    by (simp add: wall_time_stats_def if_then_def mean_ok [OF n w False])
qed

lemma decoding_steps_stats_eq:
  assumes "range_ok (decoding_steps a)"
  shows "decoding_steps_stats bn a m = (None,
     if decoding_steps a = [] then m
     else AList.update (bn @ str ''_total_decoding_steps'') (sum_list (map val (decoding_steps a)))
            (AList.update (bn @ str ''_avg_decoding_steps'')
               (sum_list (map val (decoding_steps a)) / of_nat (length (decoding_steps a))) m))"
proof (cases "decoding_steps a = []")
  case True
  then show ?thesis by (simp add: decoding_steps_stats_def if_then_def)
next
  case False
  have n: "list_all number (decoding_steps a)" and w: "within_float_range (decoding_steps a)"
    using assms by (simp_all add: range_ok_def)
  obtain s where s: "py_sum (decoding_steps a) = Inr s"
    "value_of s = sum_list (map val (decoding_steps a))"
    using py_sum_ok [OF n w] by blast
  show ?thesis
    using False s
    by (simp add: decoding_steps_stats_def if_then_def mean_ok [OF n w False])
qed

lemma new_tokens_stats_eq:
  assumes "range_ok (new_tokens a)" "range_ok (wall_times a)"
  shows "new_tokens_stats bn a m = (None,
     if new_tokens a = [] then m
     else if length (wall_times a) = length (new_tokens a) then
       AList.update (bn @ str ''_max_tokens_per_sec'')
          (Max (set (map (\<lambda>(nt, wt). ratio nt wt) (zip (new_tokens a) (wall_times a)))))
         (AList.update (bn @ str ''_avg_tokens_per_sec'')
            (sum_list (map (\<lambda>(nt, wt). ratio nt wt) (zip (new_tokens a) (wall_times a)))
               / of_nat (length (new_tokens a)))
           (AList.update (bn @ str ''_total_new_tokens'') (sum_list (map val (new_tokens a)))
             (AList.update (bn @ str ''_avg_new_tokens'')
                (sum_list (map val (new_tokens a)) / of_nat (length (new_tokens a))) m)))
     else AList.update (bn @ str ''_total_new_tokens'') (sum_list (map val (new_tokens a)))
            (AList.update (bn @ str ''_avg_new_tokens'')
               (sum_list (map val (new_tokens a)) / of_nat (length (new_tokens a))) m))"
proof (cases "new_tokens a = []")
  case True
  then show ?thesis by (simp add: new_tokens_stats_def if_then_def)
next
  case False
  note ne = this
  have n: "list_all number (new_tokens a)" and w: "within_float_range (new_tokens a)"
    using assms(1) by (simp_all add: range_ok_def)
  obtain s where s: "py_sum (new_tokens a) = Inr s"
    "value_of s = sum_list (map val (new_tokens a))"
    using py_sum_ok [OF n w] by blast
  show ?thesis
  proof (cases "length (wall_times a) = length (new_tokens a)")
    case False
    then show ?thesis
      using ne s by (simp add: new_tokens_stats_def if_then_def mean_ok [OF n w ne])
  next
    case True
    define tps where "tps = map (\<lambda>(nt, wt). tps_item nt wt) (zip (new_tokens a) (wall_times a))"
    have t: "tokens_per_sec (new_tokens a) (wall_times a) = Inr tps"
      unfolding tps_def
      using tokens_per_sec_ok [OF small_of_range_ok [OF assms(1)] small_of_range_ok [OF assms(2)]] .
    have r: "range_ok tps"
      unfolding tps_def using tps_range_ok [OF assms(1)] .
    have tn: "list_all number tps" and tw: "within_float_range tps"
      using r by (simp_all add: range_ok_def)
    have l: "length tps = length (new_tokens a)"
      unfolding tps_def using True by simp
    have tne: "tps \<noteq> []"
      using l ne by auto
    have wne: "wall_times a \<noteq> []"
      using True ne by auto
    have v: "map val tps = map (\<lambda>(nt, wt). ratio nt wt) (zip (new_tokens a) (wall_times a))"
      unfolding tps_def by (rule tps_val)
    obtain mx where mx: "py_max tps = Inr mx" "value_of mx = Max (set (map val tps))"
      using py_max_ok [OF tn tne] by blast
    show ?thesis
      using ne True wne s t mx l v
      by (simp add: new_tokens_stats_def if_then_def mean_ok [OF n w ne] mean_ok [OF tn tw tne])
  qed
qed

lemma accept_lengths_stats_eq:
  assumes "range_ok (accept_lengths a)"
  shows "accept_lengths_stats bn a m = (None,
     if accept_lengths a = [] then m
     else AList.update (bn @ str ''_acceptance_rate'')
            (of_nat (length (filter (\<lambda>x. 0 < val x) (accept_lengths a)))
               / of_nat (length (accept_lengths a)))
           (AList.update (bn @ str ''_max_accept_length'')
              (Max (set (map val (accept_lengths a))))
             (AList.update (bn @ str ''_avg_accept_length'')
                (sum_list (map val (accept_lengths a)) / of_nat (length (accept_lengths a))) m)))"
proof (cases "accept_lengths a = []")
  case True
  then show ?thesis by (simp add: accept_lengths_stats_def if_then_def)
next
  case False
  have n: "list_all number (accept_lengths a)" and w: "within_float_range (accept_lengths a)"
    using assms by (simp_all add: range_ok_def)
  obtain mx where mx: "py_max (accept_lengths a) = Inr mx"
    "value_of mx = Max (set (map val (accept_lengths a)))"
    using py_max_ok [OF n False] by blast
  have c: "count_positive (accept_lengths a) =
             Inr (int (length (filter (\<lambda>x. 0 < val x) (accept_lengths a))))"
    using count_positive_ok [OF n] .
  have le: "length (filter (\<lambda>x. 0 < val x) (accept_lengths a)) \<le> length (accept_lengths a)"
    by simp
  have b2: "int (length (accept_lengths a)) < int_limit"
    using w mass_nonneg [of "accept_lengths a"] by (simp add: within_float_range_def)
  have b1: "bound (I (int (length (filter (\<lambda>x. 0 < val x) (accept_lengths a))))) < int_limit"
  proof -
    have "int (length (filter (\<lambda>x. 0 < val x) (accept_lengths a)))
            \<le> int (length (accept_lengths a))"
      using le by (simp only: of_nat_le_iff)
    then have "int (length (filter (\<lambda>x. 0 < val x) (accept_lengths a))) < int_limit"
      using b2 by linarith
    then show ?thesis
      by (simp add: bound_def)
  qed
  have pos: "0 < length (accept_lengths a)"
    using False by simp
  have d: "py_truediv (I (int (length (filter (\<lambda>x. 0 < val x) (accept_lengths a)))))
             (len_num (accept_lengths a)) =
           Inr (F (of_nat (length (filter (\<lambda>x. 0 < val x) (accept_lengths a)))
                     / of_nat (length (accept_lengths a))))"
    using truediv_len_ok [OF b1 b2 pos] by (simp add: len_num_def)
  show ?thesis
    using False mx c d
    by (simp add: accept_lengths_stats_def if_then_def mean_ok [OF n w False])
qed

lemma array_under_numbers: "optional_array kv key \<Longrightarrow> list_all number (array_under key kv)"
  by (cases "map_of kv key")
     (auto simp add: optional_array_def array_under_def number_array_def split: pyval.splits)

lemma first_choice_array_numbers:
  assumes "well_formed_record r"
    and "key \<in> {str ''wall_time'', str ''decoding_steps'', str ''new_tokens'',
                str ''accept_lengths''}"
  shows "list_all number (first_choice_array key r)"
proof -
  obtain kv where r: "r = PDict kv"
    using assms(1) by (cases r) (simp_all add: well_formed_record_def)
  show ?thesis
  proof (cases "map_of kv (str ''choices'')")
    case None
    then show ?thesis using r by (simp add: first_choice_array_def)
  next
    case (Some v)
    then obtain cs where v: "v = PList cs"
      using assms(1) r by (cases v) (simp_all add: well_formed_record_def)
    show ?thesis
    proof (cases cs)
      case Nil
      then show ?thesis using r Some v by (simp add: first_choice_array_def)
    next
      case (Cons c rest)
      then have wf: "well_formed_choice c"
        using assms(1) r Some v by (simp add: well_formed_record_def)
      then obtain ckv where c: "c = PDict ckv"
        by (cases c) (simp_all add: well_formed_choice_def)
      have "optional_array ckv key"
        using wf c assms(2) by (auto simp add: well_formed_choice_def)
      then show ?thesis
        using r Some v Cons c by (simp add: first_choice_array_def array_under_numbers)
    qed
  qed
qed

lemma spec_flattened_numbers:
  assumes "list_all well_formed_record rs"
    and "key \<in> {str ''wall_time'', str ''decoding_steps'', str ''new_tokens'',
                str ''accept_lengths''}"
  shows "list_all number (spec_flattened key rs)"
  using assms(1)
  by (induction rs) (simp_all add: spec_flattened_def first_choice_array_numbers [OF _ assms(2)])

lemma spec_accs_range_ok:
  assumes "list_all well_formed_record rs" "in_float_range rs"
  shows "range_ok (wall_times (spec_accs rs))" "range_ok (decoding_steps (spec_accs rs))"
    "range_ok (new_tokens (spec_accs rs))" "range_ok (accept_lengths (spec_accs rs))"
  using assms(2) spec_flattened_numbers [OF assms(1)]
  by (simp_all add: spec_accs_def range_ok_def in_float_range_def)

lemma collect_spec_accs:
  "list_all well_formed_record rs \<Longrightarrow> collect rs empty_accs = Inr (spec_accs rs)"
  by (simp add: collect_well_formed empty_accs_def spec_accs_def)

lemma parse_well_formed:
  assumes "load_lines f = Inr rs" "list_all well_formed_record rs"
  shows "parse_benchmark_results (Some f) bn =
     (if rs = [] then ([], False)
      else (case derive_metrics bn (spec_accs rs)
                   [(bn @ str ''_total_questions'', of_nat (length rs))] of
              (Some e, m) \<Rightarrow> (m, True)
            | (None, m) \<Rightarrow> (m, False)))"
  using assms
  by (auto simp add: parse_benchmark_results_def collect_spec_accs len_num_def
        split: prod.splits option.splits)

lemma derive_metrics_eq:
  assumes "range_ok (wall_times a)" "range_ok (decoding_steps a)" "range_ok (new_tokens a)"
    "range_ok (accept_lengths a)"
  shows "derive_metrics bn a m = (None,
     snd (accept_lengths_stats bn a (snd (new_tokens_stats bn a (snd (decoding_steps_stats bn a
       (snd (wall_time_stats bn a m))))))))"
  by (simp add: derive_metrics_def wall_time_stats_eq [OF assms(1)]
        decoding_steps_stats_eq [OF assms(2)] new_tokens_stats_eq [OF assms(3) assms(1)]
        accept_lengths_stats_eq [OF assms(4)])

lemma parse_in_range:
  assumes "load_lines f = Inr rs" "list_all well_formed_record rs" "in_float_range rs"
  shows "parse_benchmark_results (Some f) bn =
     (if rs = [] then ([], False)
      else (snd (derive_metrics bn (spec_accs rs)
                   [(bn @ str ''_total_questions'', of_nat (length rs))]), False))"
  using parse_well_formed [OF assms(1,2), of bn]
    derive_metrics_eq [OF spec_accs_range_ok [OF assms(2,3)], of bn]
  by simp

lemma wall_time_stats_frame:
  "range_ok (wall_times a) \<Longrightarrow>
   s \<notin> {''_avg_wall_time'', ''_total_wall_time'', ''_max_wall_time'', ''_min_wall_time''} \<Longrightarrow>
   map_of (snd (wall_time_stats bn a m)) (bn @ str s) = map_of m (bn @ str s)"
  by (simp add: wall_time_stats_eq update_conv')

lemma decoding_steps_stats_frame:
  "range_ok (decoding_steps a) \<Longrightarrow>
   s \<notin> {''_avg_decoding_steps'', ''_total_decoding_steps''} \<Longrightarrow>
   map_of (snd (decoding_steps_stats bn a m)) (bn @ str s) = map_of m (bn @ str s)"
  by (simp add: decoding_steps_stats_eq update_conv')

lemma new_tokens_stats_frame:
  "range_ok (new_tokens a) \<Longrightarrow> range_ok (wall_times a) \<Longrightarrow>
   s \<notin> {''_avg_new_tokens'', ''_total_new_tokens'', ''_avg_tokens_per_sec'',
      ''_max_tokens_per_sec''} \<Longrightarrow>
   map_of (snd (new_tokens_stats bn a m)) (bn @ str s) = map_of m (bn @ str s)"
  by (simp add: new_tokens_stats_eq update_conv')

lemma accept_lengths_stats_frame:
  "range_ok (accept_lengths a) \<Longrightarrow>
   s \<notin> {''_avg_accept_length'', ''_max_accept_length'', ''_acceptance_rate''} \<Longrightarrow>
   map_of (snd (accept_lengths_stats bn a m)) (bn @ str s) = map_of m (bn @ str s)"
  by (simp add: accept_lengths_stats_eq update_conv')

lemma derive_acceptance_rate:
  assumes "range_ok (wall_times a)" "range_ok (decoding_steps a)" "range_ok (new_tokens a)"
    "range_ok (accept_lengths a)"
  shows "map_of (snd (derive_metrics bn a [(bn @ str ''_total_questions'', q)]))
           (bn @ str ''_acceptance_rate'') =
     (if accept_lengths a = [] then None
      else Some (of_nat (length (filter (\<lambda>x. 0 < val x) (accept_lengths a)))
                   / of_nat (length (accept_lengths a))))"
  by (simp add: derive_metrics_eq [OF assms] accept_lengths_stats_eq [OF assms(4)] update_conv'
        new_tokens_stats_frame [OF assms(3) assms(1)] decoding_steps_stats_frame [OF assms(2)]
        wall_time_stats_frame [OF assms(1)])

lemma derive_tokens_per_sec:
  assumes "range_ok (wall_times a)" "range_ok (decoding_steps a)" "range_ok (new_tokens a)"
    "range_ok (accept_lengths a)"
  shows "map_of (snd (derive_metrics bn a [(bn @ str ''_total_questions'', q)]))
           (bn @ str ''_avg_tokens_per_sec'') =
     (if new_tokens a \<noteq> [] \<and> length (wall_times a) = length (new_tokens a)
      then Some (sum_list (map (\<lambda>(nt, wt). ratio nt wt) (zip (new_tokens a) (wall_times a)))
                   / of_nat (length (new_tokens a)))
      else None)"
    and "map_of (snd (derive_metrics bn a [(bn @ str ''_total_questions'', q)]))
           (bn @ str ''_max_tokens_per_sec'') =
     (if new_tokens a \<noteq> [] \<and> length (wall_times a) = length (new_tokens a)
      then Some (Max (set (map (\<lambda>(nt, wt). ratio nt wt) (zip (new_tokens a) (wall_times a)))))
      else None)"
  by (simp_all add: derive_metrics_eq [OF assms] accept_lengths_stats_frame [OF assms(4)]
        new_tokens_stats_eq [OF assms(3) assms(1)] update_conv'
        decoding_steps_stats_frame [OF assms(2)] wall_time_stats_frame [OF assms(1)])

lemma derive_total_questions:
  assumes "range_ok (wall_times a)" "range_ok (decoding_steps a)" "range_ok (new_tokens a)"
    "range_ok (accept_lengths a)"
  shows "map_of (snd (derive_metrics bn a [(bn @ str ''_total_questions'', q)]))
           (bn @ str ''_total_questions'') = Some q"
  by (simp add: derive_metrics_eq [OF assms] accept_lengths_stats_frame [OF assms(4)]
        new_tokens_stats_frame [OF assms(3) assms(1)] decoding_steps_stats_frame [OF assms(2)]
        wall_time_stats_frame [OF assms(1)])

lemma derive_wall_time:
  assumes "range_ok (wall_times a)" "range_ok (decoding_steps a)" "range_ok (new_tokens a)"
    "range_ok (accept_lengths a)" "wall_times a \<noteq> []"
  shows "map_of (snd (derive_metrics bn a [(bn @ str ''_total_questions'', q)]))
           (bn @ str ''_avg_wall_time'') =
       Some (sum_list (map val (wall_times a)) / of_nat (length (wall_times a))) \<and>
     map_of (snd (derive_metrics bn a [(bn @ str ''_total_questions'', q)]))
           (bn @ str ''_total_wall_time'') = Some (sum_list (map val (wall_times a))) \<and>
     map_of (snd (derive_metrics bn a [(bn @ str ''_total_questions'', q)]))
           (bn @ str ''_max_wall_time'') = Some (Max (set (map val (wall_times a)))) \<and>
     map_of (snd (derive_metrics bn a [(bn @ str ''_total_questions'', q)]))
           (bn @ str ''_min_wall_time'') = Some (Min (set (map val (wall_times a))))"
  using assms(5)
  by (simp add: derive_metrics_eq [OF assms(1-4)] accept_lengths_stats_frame [OF assms(4)]
        new_tokens_stats_frame [OF assms(3) assms(1)] decoding_steps_stats_frame [OF assms(2)]
        wall_time_stats_eq [OF assms(1)] update_conv')

lemma derive_decoding_steps:
  assumes "range_ok (wall_times a)" "range_ok (decoding_steps a)" "range_ok (new_tokens a)"
    "range_ok (accept_lengths a)" "decoding_steps a \<noteq> []"
  shows "map_of (snd (derive_metrics bn a [(bn @ str ''_total_questions'', q)]))
           (bn @ str ''_avg_decoding_steps'') =
       Some (sum_list (map val (decoding_steps a)) / of_nat (length (decoding_steps a))) \<and>
     map_of (snd (derive_metrics bn a [(bn @ str ''_total_questions'', q)]))
           (bn @ str ''_total_decoding_steps'') = Some (sum_list (map val (decoding_steps a)))"
  using assms(5)
  by (simp add: derive_metrics_eq [OF assms(1-4)] accept_lengths_stats_frame [OF assms(4)]
        new_tokens_stats_frame [OF assms(3) assms(1)] decoding_steps_stats_eq [OF assms(2)]
        update_conv')

lemma derive_new_tokens:
  assumes "range_ok (wall_times a)" "range_ok (decoding_steps a)" "range_ok (new_tokens a)"
    "range_ok (accept_lengths a)" "new_tokens a \<noteq> []"
  shows "map_of (snd (derive_metrics bn a [(bn @ str ''_total_questions'', q)]))
           (bn @ str ''_avg_new_tokens'') =
       Some (sum_list (map val (new_tokens a)) / of_nat (length (new_tokens a))) \<and>
     map_of (snd (derive_metrics bn a [(bn @ str ''_total_questions'', q)]))
           (bn @ str ''_total_new_tokens'') = Some (sum_list (map val (new_tokens a)))"
  using assms(5)
  by (simp add: derive_metrics_eq [OF assms(1-4)] accept_lengths_stats_frame [OF assms(4)]
        new_tokens_stats_eq [OF assms(3) assms(1)] update_conv')

lemma derive_accept_lengths:
  assumes "range_ok (wall_times a)" "range_ok (decoding_steps a)" "range_ok (new_tokens a)"
    "range_ok (accept_lengths a)" "accept_lengths a \<noteq> []"
  shows "map_of (snd (derive_metrics bn a [(bn @ str ''_total_questions'', q)]))
           (bn @ str ''_avg_accept_length'') =
       Some (sum_list (map val (accept_lengths a)) / of_nat (length (accept_lengths a))) \<and>
     map_of (snd (derive_metrics bn a [(bn @ str ''_total_questions'', q)]))
           (bn @ str ''_max_accept_length'') = Some (Max (set (map val (accept_lengths a))))"
  using assms(5)
  by (simp add: derive_metrics_eq [OF assms(1-4)] accept_lengths_stats_eq [OF assms(4)]
        update_conv')

lemma map_of_add_missing:
  "map_of (add_missing key kv) k =
     (if k = key \<and> map_of kv key = None then Some (PList []) else map_of kv k)"
  by (cases "map_of kv key") (auto simp add: add_missing_def map_add_def split: option.splits)

lemma array_under_add_missing: "array_under k (add_missing key kv) = array_under k kv"
  by (simp add: array_under_def map_of_add_missing)

lemma optional_array_add_missing:
  "optional_array kv k \<Longrightarrow> optional_array (add_missing key kv) k"
  by (simp add: optional_array_def map_of_add_missing number_array_def)

lemma fill_choice_well_formed: "well_formed_choice c \<Longrightarrow> well_formed_choice (fill_choice c)"
  by (cases c) (simp_all add: well_formed_choice_def fill_choice_def optional_array_add_missing)

lemma fill_choice_dict:
  "fill_choice (PDict kv) =
     PDict (add_missing (str ''accept_lengths'') (add_missing (str ''new_tokens'')
             (add_missing (str ''decoding_steps'') (add_missing (str ''wall_time'') kv))))"
  by (simp add: fill_choice_def)

lemma array_under_fill:
  "array_under k (add_missing (str ''accept_lengths'') (add_missing (str ''new_tokens'')
     (add_missing (str ''decoding_steps'') (add_missing (str ''wall_time'') kv)))) =
   array_under k kv"
  by (simp add: array_under_add_missing)

lemma well_formed_empty_choice: "well_formed_choice (PDict [])"
  by (simp add: well_formed_choice_def optional_array_def)

lemma fill_record_props:
  assumes "well_formed_record r"
  shows "well_formed_record (fill_record r) \<and>
         first_choice_array key (fill_record r) = first_choice_array key r"
proof -
  obtain kv where r: "r = PDict kv"
    using assms by (cases r) (simp_all add: well_formed_record_def)
  show ?thesis
  proof (cases "map_of kv (str ''choices'')")
    case None
    have "well_formed_choice (fill_choice (PDict []))"
      using fill_choice_well_formed [OF well_formed_empty_choice] .
    moreover have "array_under key (add_missing (str ''accept_lengths'')
        (add_missing (str ''new_tokens'') (add_missing (str ''decoding_steps'')
          (add_missing (str ''wall_time'') [])))) = []"
      unfolding array_under_fill by (simp add: array_under_def)
    ultimately show ?thesis
      using r None
      by (simp add: fill_record_def well_formed_record_def first_choice_array_def
            map_add_def fill_choice_dict)
  next
    case (Some v)
    then obtain cs where v: "v = PList cs"
      using assms r by (cases v) (simp_all add: well_formed_record_def)
    show ?thesis
    proof (cases cs)
      case Nil
      then show ?thesis
        using assms r Some v by (simp add: fill_record_def)
    next
      case (Cons c rest)
      then have wf: "well_formed_choice c"
        using assms r Some v by (simp add: well_formed_record_def)
      then obtain ckv where c: "c = PDict ckv"
        by (cases c) (simp_all add: well_formed_choice_def)
      have wf': "well_formed_choice (fill_choice c)"
        using fill_choice_well_formed [OF wf] .
      show ?thesis
        using r Some v Cons c wf'
        by (simp add: fill_record_def well_formed_record_def first_choice_array_def
              update_conv' fill_choice_dict array_under_fill)
    qed
  qed
qed

lemma fill_records_props:
  "list_all well_formed_record rs \<Longrightarrow>
     list_all well_formed_record (map fill_record rs) \<and>
     spec_flattened key (map fill_record rs) = spec_flattened key rs"
  by (induction rs) (simp_all add: spec_flattened_def fill_record_props)

lemma load_lines_Malformed: "Malformed \<in> set f \<Longrightarrow> load_lines f = Inl Exception"
proof (induction f)
  case Nil
  then show ?case by simp
next
  case (Cons l ls)
  then show ?case by (cases l) auto
qed

lemma load_lines_Parsed: "load_lines (map Parsed rs) = Inr rs"
  by (induction rs) simp_all

lemma parse_fill:
  assumes "load_lines f = Inr rs" "list_all well_formed_record rs"
  shows "parse_benchmark_results (Some (map Parsed (map fill_record rs))) bn =
         parse_benchmark_results (Some f) bn"
proof -
  have wf: "list_all well_formed_record (map fill_record rs)"
    using fill_records_props [OF assms(2)] by simp
  have a: "spec_accs (map fill_record rs) = spec_accs rs"
    using fill_records_props [OF assms(2)] by (simp add: spec_accs_def)
  show ?thesis
    using parse_well_formed [OF load_lines_Parsed wf, of bn] parse_well_formed [OF assms, of bn] a
    by simp
qed

lemma parse_not_dict:
  assumes "load_lines f = Inr rs"
    and "\<exists>r \<in> set rs. (case r of PDict kv \<Rightarrow> False | _ \<Rightarrow> True)"
  shows "parse_benchmark_results (Some f) bn =
           ([(bn @ str ''_total_questions'', of_nat (length rs))], True)"
proof -
  obtain e where e: "collect rs empty_accs = Inl e"
    using collect_not_dict [OF assms(2)] by blast
  have "rs \<noteq> []"
    using assms(2) by auto
  then show ?thesis
    using assms(1) e by (simp add: parse_benchmark_results_def len_num_def)
qed

text \<open>
  C2 (as amended). No exception leaves the aggregator. For a file whose non-blank lines
  are records of the documented shape, an absent metric array, and an absent \<open>choices\<close>
  key, is read exactly as an empty array; if moreover the integers are within the range
  of a float, no error is raised or logged. A malformed line is not skipped: the one
  parse error is caught for the whole file, logged once, and the file yields the empty
  metric mapping. A line that is valid JSON but not an object also stops the
  aggregation: the error is logged and the mapping holds \<open>total_questions\<close> only.
\<close>

theorem parse_sparse_and_malformed:
  "(load_lines f = Inr rs \<and> list_all well_formed_record rs \<longrightarrow>
      parse_benchmark_results (Some (map Parsed (map fill_record rs))) bn =
        parse_benchmark_results (Some f) bn) \<and>
   (load_lines f = Inr rs \<and> list_all well_formed_record rs \<and> in_float_range rs \<longrightarrow>
      \<not> snd (parse_benchmark_results (Some f) bn)) \<and>
   (Malformed \<in> set f \<longrightarrow> parse_benchmark_results (Some f) bn = ([], True)) \<and>
   (load_lines f = Inr rs \<and> (\<exists>r \<in> set rs. (case r of PDict kv \<Rightarrow> False | _ \<Rightarrow> True)) \<longrightarrow>
      parse_benchmark_results (Some f) bn =
        ([(bn @ str ''_total_questions'', of_nat (length rs))], True))"
proof (intro conjI impI)
  assume "load_lines f = Inr rs \<and> list_all well_formed_record rs"
  then show "parse_benchmark_results (Some (map Parsed (map fill_record rs))) bn =
        parse_benchmark_results (Some f) bn"
    using parse_fill by blast
next
  assume "load_lines f = Inr rs \<and> list_all well_formed_record rs \<and> in_float_range rs"
  then show "\<not> snd (parse_benchmark_results (Some f) bn)"
    using parse_in_range [of f rs bn] by simp
next
  assume "Malformed \<in> set f"
  then show "parse_benchmark_results (Some f) bn = ([], True)"
    by (simp add: parse_benchmark_results_def load_lines_Malformed)
next
  assume "load_lines f = Inr rs \<and> (\<exists>r \<in> set rs. (case r of PDict kv \<Rightarrow> False | _ \<Rightarrow> True))"
  then show "parse_benchmark_results (Some f) bn =
        ([(bn @ str ''_total_questions'', of_nat (length rs))], True)"
    using parse_not_dict by blast
qed

lemma samples_well_formed:
  "well_formed_record sparse_record" "well_formed_record full_record"
  "well_formed_record no_choices_record" "well_formed_record negative_record"
  "well_formed_record huge_record"
  by (simp_all add: well_formed_record_def well_formed_choice_def optional_array_def
        number_array_def number_def sparse_record_def full_record_def no_choices_record_def
        negative_record_def huge_record_def str_def)

lemma samples_flattened:
  "spec_flattened (str ''wall_time'') [sparse_record, full_record, no_choices_record] =
     [PInt 2, PInt 0, PFloat (1 / 2)]"
  "spec_flattened (str ''decoding_steps'') [sparse_record, full_record, no_choices_record] =
     [PInt 5]"
  "spec_flattened (str ''new_tokens'') [sparse_record, full_record, no_choices_record] =
     [PInt 4, PInt 6, PInt 3]"
  "spec_flattened (str ''accept_lengths'') [sparse_record, full_record, no_choices_record] =
     [PInt 0, PInt 3]"
  by (simp_all add: spec_flattened_def first_choice_array_def array_under_def sparse_record_def
        full_record_def no_choices_record_def str_def)

lemma samples_in_range: "in_float_range [sparse_record, full_record, no_choices_record]"
  by (simp add: in_float_range_def samples_flattened within_float_range_def int_abs_def
        int_limit_def)

lemma sparse_flattened:
  "spec_flattened (str ''wall_time'') [sparse_record] = [PInt 2, PInt 0]"
  "spec_flattened (str ''decoding_steps'') [sparse_record] = []"
  "spec_flattened (str ''new_tokens'') [sparse_record] = [PInt 4, PInt 6]"
  "spec_flattened (str ''accept_lengths'') [sparse_record] = []"
  by (simp_all add: spec_flattened_def first_choice_array_def array_under_def sparse_record_def
        str_def)

lemma sparse_in_range: "in_float_range [sparse_record]"
  by (simp add: in_float_range_def sparse_flattened within_float_range_def int_abs_def
        int_limit_def)

lemma full_flattened:
  "spec_flattened (str ''wall_time'') [full_record] = [PFloat (1 / 2)]"
  "spec_flattened (str ''decoding_steps'') [full_record] = [PInt 5]"
  "spec_flattened (str ''new_tokens'') [full_record] = [PInt 3]"
  "spec_flattened (str ''accept_lengths'') [full_record] = [PInt 0, PInt 3]"
  by (simp_all add: spec_flattened_def first_choice_array_def array_under_def full_record_def
        str_def)

lemma full_in_range: "in_float_range [full_record]"
  by (simp add: in_float_range_def full_flattened within_float_range_def int_abs_def
        int_limit_def)

lemma negative_flattened:
  "spec_flattened (str ''wall_time'') [negative_record] = [PInt (- 2)]"
  "spec_flattened (str ''decoding_steps'') [negative_record] = []"
  "spec_flattened (str ''new_tokens'') [negative_record] = [PInt 4]"
  "spec_flattened (str ''accept_lengths'') [negative_record] = []"
  by (simp_all add: spec_flattened_def first_choice_array_def array_under_def
        negative_record_def str_def)

lemma negative_in_range: "in_float_range [negative_record]"
  by (simp add: in_float_range_def negative_flattened within_float_range_def int_abs_def
        int_limit_def)

lemma huge_flattened:
  "spec_flattened (str ''wall_time'') [huge_record] = [PInt 1]"
  "spec_flattened (str ''decoding_steps'') [huge_record] = []"
  "spec_flattened (str ''new_tokens'') [huge_record] = [PInt huge]"
  "spec_flattened (str ''accept_lengths'') [huge_record] = [PInt huge]"
  by (simp_all add: spec_flattened_def first_choice_array_def array_under_def huge_record_def
        str_def)

lemma mean_huge: "mean [PInt huge] = Inl Exception"
  by (simp add: mean_def py_sum_def as_num_def py_add_def py_truediv_def len_num_def
        float_limit_def huge_def)

text \<open>What the aggregator returns for the record with a 401-digit token count.\<close>

lemma parse_huge:
  "parse_benchmark_results (Some [Parsed huge_record]) bn =
     ([(bn @ str ''_total_questions'', 1), (bn @ str ''_avg_wall_time'', 1),
       (bn @ str ''_total_wall_time'', 1), (bn @ str ''_max_wall_time'', 1),
       (bn @ str ''_min_wall_time'', 1)], True)"
proof -
  define a where "a = spec_accs [huge_record]"
  have av: "wall_times a = [PInt 1]" "decoding_steps a = []" "new_tokens a = [PInt huge]"
    by (simp_all add: a_def spec_accs_def huge_flattened)
  have l: "load_lines [Parsed huge_record] = Inr [huge_record]"
    by simp
  have wf: "list_all well_formed_record [huge_record]"
    by (simp add: samples_well_formed)
  have w: "range_ok (wall_times a)"
    by (simp add: av range_ok_def number_def within_float_range_def int_abs_def int_limit_def)
  have d: "range_ok (decoding_steps a)"
    by (simp add: av range_ok_def within_float_range_def int_limit_def)
  have n: "new_tokens_stats bn a m = (Some Exception, m)" for m
    by (simp add: new_tokens_stats_def if_then_def av mean_huge)
  have "derive_metrics bn a [(bn @ str ''_total_questions'', 1)] =
     (Some Exception,
      [(bn @ str ''_total_questions'', 1), (bn @ str ''_avg_wall_time'', 1),
       (bn @ str ''_total_wall_time'', 1), (bn @ str ''_max_wall_time'', 1),
       (bn @ str ''_min_wall_time'', 1)])"
    by (simp add: derive_metrics_def wall_time_stats_eq [OF w] decoding_steps_stats_eq [OF d] n
          av val_def)
  then show ?thesis
    using parse_well_formed [OF l wf, of bn] unfolding a_def by simp
qed

theorem parse_sparse_and_malformed_witness:
  "load_lines [Blank, Parsed sparse_record, Parsed full_record, Parsed no_choices_record] =
     Inr [sparse_record, full_record, no_choices_record] \<and>
   parse_benchmark_results
     (Some [Parsed (fill_record sparse_record), Parsed (fill_record full_record),
            Parsed (fill_record no_choices_record)]) (str ''b'') =
   parse_benchmark_results
     (Some [Blank, Parsed sparse_record, Parsed full_record, Parsed no_choices_record])
     (str ''b'') \<and>
   \<not> snd (parse_benchmark_results
     (Some [Blank, Parsed sparse_record, Parsed full_record, Parsed no_choices_record])
     (str ''b'')) \<and>
   Malformed \<in> set [Parsed full_record, Malformed] \<and>
   parse_benchmark_results (Some [Parsed full_record, Malformed]) (str ''b'') = ([], True) \<and>
   load_lines [Parsed full_record, Parsed (PInt 5)] = Inr [full_record, PInt 5] \<and>
   parse_benchmark_results (Some [Parsed full_record, Parsed (PInt 5)]) (str ''b'') =
     ([(str ''b'' @ str ''_total_questions'', 2)], True)"
proof -
  let ?f = "[Blank, Parsed sparse_record, Parsed full_record, Parsed no_choices_record]"
  let ?rs = "[sparse_record, full_record, no_choices_record]"
  have l: "load_lines ?f = Inr ?rs"
    by simp
  have wf: "list_all well_formed_record ?rs"
    by (simp add: samples_well_formed)
  note t = parse_sparse_and_malformed [of ?f ?rs "str ''b''"]
  have "parse_benchmark_results (Some (map Parsed (map fill_record ?rs))) (str ''b'') =
        parse_benchmark_results (Some ?f) (str ''b'')"
    using t l wf by blast
  then have a: "parse_benchmark_results
     (Some [Parsed (fill_record sparse_record), Parsed (fill_record full_record),
            Parsed (fill_record no_choices_record)]) (str ''b'') =
     parse_benchmark_results (Some ?f) (str ''b'')"
    by simp
  have b: "\<not> snd (parse_benchmark_results (Some ?f) (str ''b''))"
    using t l wf samples_in_range by blast
  have m: "Malformed \<in> set [Parsed full_record, Malformed]"
    by simp
  have c: "parse_benchmark_results (Some [Parsed full_record, Malformed]) (str ''b'') =
             ([], True)"
    using parse_sparse_and_malformed [of "[Parsed full_record, Malformed]" "[]" "str ''b''"] m
    by blast
  have l5: "load_lines [Parsed full_record, Parsed (PInt 5)] = Inr [full_record, PInt 5]"
    by simp
  have n5: "\<exists>r \<in> set [full_record, PInt 5]. (case r of PDict kv \<Rightarrow> False | _ \<Rightarrow> True)"
    by simp
  have "parse_benchmark_results (Some [Parsed full_record, Parsed (PInt 5)]) (str ''b'') =
     ([(str ''b'' @ str ''_total_questions'', of_nat (length [full_record, PInt 5]))], True)"
    using parse_sparse_and_malformed
      [of "[Parsed full_record, Parsed (PInt 5)]" "[full_record, PInt 5]" "str ''b''"] l5 n5
    by blast
  then have d: "parse_benchmark_results (Some [Parsed full_record, Parsed (PInt 5)])
      (str ''b'') = ([(str ''b'' @ str ''_total_questions'', 2)], True)"
    by simp
  show ?thesis
    using l a b m c l5 d by blast
qed

text \<open>
  C2 as stated fails: with one well-formed line followed by one malformed line the
  aggregator returns no metric at all, while the well-formed line alone yields metrics.
\<close>

theorem parse_malformed_counterexample:
  "fst (parse_benchmark_results (Some [Parsed full_record, Malformed]) (str ''b'')) = [] \<and>
   map_of (fst (parse_benchmark_results (Some [Parsed full_record]) (str ''b'')))
     (str ''b'' @ str ''_total_questions'') = Some 1"
proof -
  have a: "fst (parse_benchmark_results (Some [Parsed full_record, Malformed]) (str ''b'')) = []"
    by (simp add: parse_benchmark_results_def)
  have l: "load_lines [Parsed full_record] = Inr [full_record]"
    by simp
  have wf: "list_all well_formed_record [full_record]"
    by (simp add: samples_well_formed)
  have "map_of (fst (parse_benchmark_results (Some [Parsed full_record]) (str ''b'')))
     (str ''b'' @ str ''_total_questions'') = Some 1"
    using parse_in_range [OF l wf full_in_range, of "str ''b''"]
      derive_total_questions [OF spec_accs_range_ok [OF wf full_in_range], of "str ''b''" 1]
    by simp
  then show ?thesis
    using a by simp
qed

lemma uneven_facts:
  "well_formed_record uneven_record"
  "spec_flattened (str ''wall_time'') [uneven_record] = [PInt 1]"
  "spec_flattened (str ''decoding_steps'') [uneven_record] = []"
  "spec_flattened (str ''new_tokens'') [uneven_record] = [PInt 4, PInt 6]"
  "spec_flattened (str ''accept_lengths'') [uneven_record] = []"
  by (simp_all add: well_formed_record_def well_formed_choice_def optional_array_def
        number_array_def number_def spec_flattened_def first_choice_array_def array_under_def
        uneven_record_def str_def)

lemma uneven_in_range: "in_float_range [uneven_record]"
  by (simp add: in_float_range_def uneven_facts within_float_range_def int_abs_def
        int_limit_def)

lemma positive_fraction:
  "xs \<noteq> [] \<Longrightarrow>
     (0::rat) \<le> of_nat (length (filter P xs)) / of_nat (length xs) \<and>
     (of_nat (length (filter P xs)) :: rat) / of_nat (length xs) \<le> 1"
proof -
  assume "xs \<noteq> []"
  then have p: "(0::rat) < of_nat (length xs)"
    by simp
  have "(of_nat (length (filter P xs)) :: rat) \<le> of_nat (length xs)"
    by (simp only: of_nat_le_iff length_filter_le)
  then show ?thesis
    using p by (simp add: divide_le_eq)
qed

text \<open>
  C3 (as amended). For every record set of the documented shape whose integers are
  within the range of a float, computing the metrics raises nothing. When the flattened
  \<open>accept_lengths\<close> list is empty the \<open>acceptance_rate\<close> metric is absent from the mapping
  (the division is not executed); when it is non-empty the metric is present, equals the
  fraction of entries strictly greater than zero, lies in [0,1], and is 0 when every
  entry is zero.
\<close>

theorem acceptance_rate_range:
  "load_lines f = Inr rs \<Longrightarrow> list_all well_formed_record rs \<Longrightarrow> in_float_range rs \<Longrightarrow>
     (let al = spec_flattened (str ''accept_lengths'') rs;
          rate = map_of (fst (parse_benchmark_results (Some f) bn)) (bn @ str ''_acceptance_rate'')
      in \<not> snd (parse_benchmark_results (Some f) bn) \<and>
         (al = [] \<longrightarrow> rate = None) \<and>
         (al \<noteq> [] \<longrightarrow>
            rate = Some (of_nat (length (filter (\<lambda>x. 0 < val x) al)) / of_nat (length al)) \<and>
            0 \<le> the rate \<and> the rate \<le> 1) \<and>
         (al \<noteq> [] \<and> (\<forall>x \<in> set al. val x = 0) \<longrightarrow> rate = Some 0))"
proof -
  assume l: "load_lines f = Inr rs" and wf: "list_all well_formed_record rs"
    and ir: "in_float_range rs"
  define al where "al = spec_flattened (str ''accept_lengths'') rs"
  define rate where
    "rate = map_of (fst (parse_benchmark_results (Some f) bn)) (bn @ str ''_acceptance_rate'')"
  note ok = spec_accs_range_ok [OF wf ir]
  have acc: "accept_lengths (spec_accs rs) = al"
    by (simp add: spec_accs_def al_def)
  have nr: "\<not> snd (parse_benchmark_results (Some f) bn)"
    by (simp add: parse_in_range [OF l wf ir])
  have ne: "al \<noteq> [] \<Longrightarrow> rs \<noteq> []"
    unfolding al_def by (auto simp add: spec_flattened_def)
  have e: "al = [] \<longrightarrow> rate = None"
    unfolding rate_def
    by (cases "rs = []")
       (simp_all add: parse_in_range [OF l wf ir] derive_acceptance_rate [OF ok] acc)
  have v: "al \<noteq> [] \<Longrightarrow>
             rate = Some (of_nat (length (filter (\<lambda>x. 0 < val x) al)) / of_nat (length al))"
    using ne unfolding rate_def
    by (simp add: parse_in_range [OF l wf ir] derive_acceptance_rate [OF ok] acc)
  have r: "al \<noteq> [] \<Longrightarrow> 0 \<le> the rate \<and> the rate \<le> 1"
    using v positive_fraction [of al "\<lambda>x. 0 < val x"] by simp
  have z: "al \<noteq> [] \<and> (\<forall>x \<in> set al. val x = 0) \<longrightarrow> rate = Some 0"
  proof
    assume h: "al \<noteq> [] \<and> (\<forall>x \<in> set al. val x = 0)"
    then have "filter (\<lambda>x. 0 < val x) al = []"
      by (auto simp add: filter_empty_conv)
    then show "rate = Some 0"
      using v h by simp
  qed
  have "\<not> snd (parse_benchmark_results (Some f) bn) \<and>
         (al = [] \<longrightarrow> rate = None) \<and>
         (al \<noteq> [] \<longrightarrow>
            rate = Some (of_nat (length (filter (\<lambda>x. 0 < val x) al)) / of_nat (length al)) \<and>
            0 \<le> the rate \<and> the rate \<le> 1) \<and>
         (al \<noteq> [] \<and> (\<forall>x \<in> set al. val x = 0) \<longrightarrow> rate = Some 0)"
    using nr e v r z by blast
  then show ?thesis
    unfolding al_def rate_def Let_def .
qed

theorem acceptance_rate_range_witness:
  "load_lines [Parsed sparse_record, Blank, Parsed full_record, Parsed no_choices_record] =
     Inr [sparse_record, full_record, no_choices_record] \<and>
   spec_flattened (str ''accept_lengths'') [sparse_record, full_record, no_choices_record] =
     [PInt 0, PInt 3] \<and>
   map_of (fst (parse_benchmark_results
       (Some [Parsed sparse_record, Blank, Parsed full_record, Parsed no_choices_record])
       (str ''b''))) (str ''b'' @ str ''_acceptance_rate'') = Some (1 / 2) \<and>
   load_lines [Parsed sparse_record] = Inr [sparse_record] \<and>
   spec_flattened (str ''accept_lengths'') [sparse_record] = [] \<and>
   map_of (fst (parse_benchmark_results (Some [Parsed sparse_record]) (str ''b'')))
     (str ''b'' @ str ''_acceptance_rate'') = None"
proof -
  let ?f = "[Parsed sparse_record, Blank, Parsed full_record, Parsed no_choices_record]"
  let ?rs = "[sparse_record, full_record, no_choices_record]"
  have l: "load_lines ?f = Inr ?rs"
    by simp
  have wf: "list_all well_formed_record ?rs"
    by (simp add: samples_well_formed)
  have c: "spec_flattened (str ''accept_lengths'') ?rs = [PInt 0, PInt 3]"
    by (rule samples_flattened)
  have r: "map_of (fst (parse_benchmark_results (Some ?f) (str ''b'')))
     (str ''b'' @ str ''_acceptance_rate'') = Some (1 / 2)"
    using acceptance_rate_range [OF l wf samples_in_range, of "str ''b''"]
    unfolding Let_def c by (simp add: val_def)
  have l': "load_lines [Parsed sparse_record] = Inr [sparse_record]"
    by simp
  have wf': "list_all well_formed_record [sparse_record]"
    by (simp add: samples_well_formed)
  have c': "spec_flattened (str ''accept_lengths'') [sparse_record] = []"
    by (rule sparse_flattened)
  have r': "map_of (fst (parse_benchmark_results (Some [Parsed sparse_record]) (str ''b'')))
     (str ''b'' @ str ''_acceptance_rate'') = None"
    using acceptance_rate_range [OF l' wf' sparse_in_range, of "str ''b''"]
    unfolding Let_def c' by simp
  show ?thesis
    using l c r l' c' r' by blast
qed

text \<open>
  C3 as stated fails. A record without \<open>accept_lengths\<close> leaves the flattened list empty,
  and the mapping then has no \<open>acceptance_rate\<close> entry instead of the value 0. A record
  whose \<open>accept_lengths\<close> holds a 401-digit integer makes an earlier statistic raise
  \<open>OverflowError\<close>: the error is logged and the metric is absent although the list is not
  empty.
\<close>

theorem acceptance_rate_empty_counterexample:
  "spec_flattened (str ''accept_lengths'') [sparse_record] = [] \<and>
   map_of (fst (parse_benchmark_results (Some [Parsed sparse_record]) (str ''b'')))
     (str ''b'' @ str ''_acceptance_rate'') = None \<and>
   spec_flattened (str ''accept_lengths'') [huge_record] = [PInt huge] \<and>
   snd (parse_benchmark_results (Some [Parsed huge_record]) (str ''b'')) \<and>
   map_of (fst (parse_benchmark_results (Some [Parsed huge_record]) (str ''b'')))
     (str ''b'' @ str ''_acceptance_rate'') = None"
proof -
  have l: "load_lines [Parsed sparse_record] = Inr [sparse_record]"
    by simp
  have wf: "list_all well_formed_record [sparse_record]"
    by (simp add: samples_well_formed)
  have a: "map_of (fst (parse_benchmark_results (Some [Parsed sparse_record]) (str ''b'')))
     (str ''b'' @ str ''_acceptance_rate'') = None"
    using parse_in_range [OF l wf sparse_in_range, of "str ''b''"]
      derive_acceptance_rate [OF spec_accs_range_ok [OF wf sparse_in_range], of "str ''b''" 1]
    by (simp add: spec_accs_def sparse_flattened)
  show ?thesis
    using a by (simp add: sparse_flattened huge_flattened parse_huge)
qed

lemma ratio_eq:
  "(\<lambda>(nt, wt). ratio nt wt) = (\<lambda>(n, w). if 0 < val w then val n / val w else 0)"
  by (simp add: ratio_def fun_eq_iff)

text \<open>
  C4 (as amended). For every record set of the documented shape whose integers are
  within the range of a float, the \<open>avg_tokens_per_sec\<close> and \<open>max_tokens_per_sec\<close>
  metrics are present exactly when the flattened \<open>wall_time\<close> and \<open>new_tokens\<close> lists have
  equal, non-zero length; nothing is raised or logged otherwise. When present they are
  the mean and the maximum of the per-sample ratios, a ratio being
  \<open>new_tokens / wall_time\<close> where the wall time is positive and 0 where it is zero or
  negative. The other metrics are populated whatever the two lengths are.
\<close>

theorem tokens_per_sec_presence:
  "load_lines f = Inr rs \<Longrightarrow> list_all well_formed_record rs \<Longrightarrow> in_float_range rs \<Longrightarrow>
     (let wt = spec_flattened (str ''wall_time'') rs;
          ds = spec_flattened (str ''decoding_steps'') rs;
          nt = spec_flattened (str ''new_tokens'') rs;
          al = spec_flattened (str ''accept_lengths'') rs;
          m = map_of (fst (parse_benchmark_results (Some f) bn));
          ratios = map (\<lambda>(n, w). if 0 < val w then val n / val w else 0) (zip nt wt);
          aligned = (length wt = length nt \<and> length nt \<noteq> 0)
      in \<not> snd (parse_benchmark_results (Some f) bn) \<and>
         (m (bn @ str ''_avg_tokens_per_sec'') \<noteq> None \<longleftrightarrow> aligned) \<and>
         (m (bn @ str ''_max_tokens_per_sec'') \<noteq> None \<longleftrightarrow> aligned) \<and>
         (aligned \<longrightarrow>
            m (bn @ str ''_avg_tokens_per_sec'') = Some (sum_list ratios / of_nat (length nt)) \<and>
            m (bn @ str ''_max_tokens_per_sec'') = Some (Max (set ratios))) \<and>
         (rs \<noteq> [] \<longrightarrow> m (bn @ str ''_total_questions'') = Some (of_nat (length rs))) \<and>
         (wt \<noteq> [] \<longrightarrow>
            m (bn @ str ''_avg_wall_time'') = Some (sum_list (map val wt) / of_nat (length wt)) \<and>
            m (bn @ str ''_total_wall_time'') = Some (sum_list (map val wt)) \<and>
            m (bn @ str ''_max_wall_time'') = Some (Max (set (map val wt))) \<and>
            m (bn @ str ''_min_wall_time'') = Some (Min (set (map val wt)))) \<and>
         (ds \<noteq> [] \<longrightarrow>
            m (bn @ str ''_avg_decoding_steps'') =
              Some (sum_list (map val ds) / of_nat (length ds)) \<and>
            m (bn @ str ''_total_decoding_steps'') = Some (sum_list (map val ds))) \<and>
         (nt \<noteq> [] \<longrightarrow>
            m (bn @ str ''_avg_new_tokens'') = Some (sum_list (map val nt) / of_nat (length nt)) \<and>
            m (bn @ str ''_total_new_tokens'') = Some (sum_list (map val nt))) \<and>
         (al \<noteq> [] \<longrightarrow>
            m (bn @ str ''_avg_accept_length'') =
              Some (sum_list (map val al) / of_nat (length al)) \<and>
            m (bn @ str ''_max_accept_length'') = Some (Max (set (map val al)))))"
proof -
  assume l: "load_lines f = Inr rs" and wf: "list_all well_formed_record rs"
    and ir: "in_float_range rs"
  define wt where "wt = spec_flattened (str ''wall_time'') rs"
  define ds where "ds = spec_flattened (str ''decoding_steps'') rs"
  define nt where "nt = spec_flattened (str ''new_tokens'') rs"
  define al where "al = spec_flattened (str ''accept_lengths'') rs"
  define m where "m = map_of (fst (parse_benchmark_results (Some f) bn))"
  define ratios where
    "ratios = map (\<lambda>(n, w). if 0 < val w then val n / val w else 0) (zip nt wt)"
  define aligned where "aligned \<longleftrightarrow> length wt = length nt \<and> length nt \<noteq> 0"
  define a where "a = spec_accs rs"
  define q :: rat where "q = of_nat (length rs)"
  have ok: "range_ok (wall_times a)" "range_ok (decoding_steps a)" "range_ok (new_tokens a)"
    "range_ok (accept_lengths a)"
    unfolding a_def using spec_accs_range_ok [OF wf ir] by simp_all
  have av: "wall_times a = wt" "decoding_steps a = ds" "new_tokens a = nt" "accept_lengths a = al"
    by (simp_all add: a_def spec_accs_def wt_def ds_def nt_def al_def)
  have e: "rs = [] \<Longrightarrow> wt = [] \<and> ds = [] \<and> nt = [] \<and> al = []"
    by (simp add: wt_def ds_def nt_def al_def spec_flattened_def)
  have m_empty: "rs = [] \<Longrightarrow> m = Map.empty"
    unfolding m_def by (simp add: parse_in_range [OF l wf ir])
  have m_eq: "rs \<noteq> [] \<Longrightarrow>
      m = map_of (snd (derive_metrics bn a [(bn @ str ''_total_questions'', q)]))"
    unfolding m_def a_def q_def by (simp add: parse_in_range [OF l wf ir])
  have nr: "\<not> snd (parse_benchmark_results (Some f) bn)"
    by (simp add: parse_in_range [OF l wf ir])
  note tps = derive_tokens_per_sec [OF ok, of bn q, unfolded av ratio_eq]
  have p1: "m (bn @ str ''_avg_tokens_per_sec'') \<noteq> None \<longleftrightarrow> aligned"
  proof (cases "rs = []")
    case True
    then show ?thesis using e m_empty by (simp add: aligned_def)
  next
    case False
    then show ?thesis using m_eq tps(1) by (auto simp add: aligned_def)
  qed
  have p2: "m (bn @ str ''_max_tokens_per_sec'') \<noteq> None \<longleftrightarrow> aligned"
  proof (cases "rs = []")
    case True
    then show ?thesis using e m_empty by (simp add: aligned_def)
  next
    case False
    then show ?thesis using m_eq tps(2) by (auto simp add: aligned_def)
  qed
  have ne: "aligned \<Longrightarrow> rs \<noteq> []"
    using e by (auto simp add: aligned_def)
  have p3: "aligned \<longrightarrow>
            m (bn @ str ''_avg_tokens_per_sec'') = Some (sum_list ratios / of_nat (length nt)) \<and>
            m (bn @ str ''_max_tokens_per_sec'') = Some (Max (set ratios))"
    using ne m_eq tps by (auto simp add: aligned_def ratios_def)
  have p4: "rs \<noteq> [] \<longrightarrow> m (bn @ str ''_total_questions'') = Some (of_nat (length rs))"
    using m_eq derive_total_questions [OF ok, of bn q] by (simp add: q_def)
  have p5: "wt \<noteq> [] \<longrightarrow>
            m (bn @ str ''_avg_wall_time'') = Some (sum_list (map val wt) / of_nat (length wt)) \<and>
            m (bn @ str ''_total_wall_time'') = Some (sum_list (map val wt)) \<and>
            m (bn @ str ''_max_wall_time'') = Some (Max (set (map val wt))) \<and>
            m (bn @ str ''_min_wall_time'') = Some (Min (set (map val wt)))"
  proof
    assume w: "wt \<noteq> []"
    then have r: "rs \<noteq> []" using e by auto
    have w': "wall_times a \<noteq> []" using w av by simp
    show "m (bn @ str ''_avg_wall_time'') = Some (sum_list (map val wt) / of_nat (length wt)) \<and>
            m (bn @ str ''_total_wall_time'') = Some (sum_list (map val wt)) \<and>
            m (bn @ str ''_max_wall_time'') = Some (Max (set (map val wt))) \<and>
            m (bn @ str ''_min_wall_time'') = Some (Min (set (map val wt)))"
      using m_eq [OF r] derive_wall_time [OF ok w', of bn q] av by simp
  qed
  have p6: "ds \<noteq> [] \<longrightarrow>
            m (bn @ str ''_avg_decoding_steps'') =
              Some (sum_list (map val ds) / of_nat (length ds)) \<and>
            m (bn @ str ''_total_decoding_steps'') = Some (sum_list (map val ds))"
  proof
    assume w: "ds \<noteq> []"
    then have r: "rs \<noteq> []" using e by auto
    have w': "decoding_steps a \<noteq> []" using w av by simp
    show "m (bn @ str ''_avg_decoding_steps'') =
              Some (sum_list (map val ds) / of_nat (length ds)) \<and>
            m (bn @ str ''_total_decoding_steps'') = Some (sum_list (map val ds))"
      using m_eq [OF r] derive_decoding_steps [OF ok w', of bn q] av by simp
  qed
  have p7: "nt \<noteq> [] \<longrightarrow>
            m (bn @ str ''_avg_new_tokens'') = Some (sum_list (map val nt) / of_nat (length nt)) \<and>
            m (bn @ str ''_total_new_tokens'') = Some (sum_list (map val nt))"
  proof
    assume w: "nt \<noteq> []"
    then have r: "rs \<noteq> []" using e by auto
    have w': "new_tokens a \<noteq> []" using w av by simp
    show "m (bn @ str ''_avg_new_tokens'') = Some (sum_list (map val nt) / of_nat (length nt)) \<and>
            m (bn @ str ''_total_new_tokens'') = Some (sum_list (map val nt))"
      using m_eq [OF r] derive_new_tokens [OF ok w', of bn q] av by simp
  qed
  have p8: "al \<noteq> [] \<longrightarrow>
            m (bn @ str ''_avg_accept_length'') =
              Some (sum_list (map val al) / of_nat (length al)) \<and>
            m (bn @ str ''_max_accept_length'') = Some (Max (set (map val al)))"
  proof
    assume w: "al \<noteq> []"
    then have r: "rs \<noteq> []" using e by auto
    have w': "accept_lengths a \<noteq> []" using w av by simp
    show "m (bn @ str ''_avg_accept_length'') =
              Some (sum_list (map val al) / of_nat (length al)) \<and>
            m (bn @ str ''_max_accept_length'') = Some (Max (set (map val al)))"
      using m_eq [OF r] derive_accept_lengths [OF ok w', of bn q] av by simp
  qed
  show ?thesis
    unfolding Let_def
    using nr p1 p2 p3 p4 p5 p6 p7 p8
    unfolding wt_def ds_def nt_def al_def m_def ratios_def aligned_def
    by blast
qed

theorem tokens_per_sec_presence_witness:
  "load_lines [Parsed sparse_record, Blank, Parsed full_record, Parsed no_choices_record] =
     Inr [sparse_record, full_record, no_choices_record] \<and>
   spec_flattened (str ''wall_time'') [sparse_record, full_record, no_choices_record] =
     [PInt 2, PInt 0, PFloat (1 / 2)] \<and>
   spec_flattened (str ''new_tokens'') [sparse_record, full_record, no_choices_record] =
     [PInt 4, PInt 6, PInt 3] \<and>
   map_of (fst (parse_benchmark_results
       (Some [Parsed sparse_record, Blank, Parsed full_record, Parsed no_choices_record])
       (str ''b''))) (str ''b'' @ str ''_avg_tokens_per_sec'') = Some (8 / 3) \<and>
   map_of (fst (parse_benchmark_results
       (Some [Parsed sparse_record, Blank, Parsed full_record, Parsed no_choices_record])
       (str ''b''))) (str ''b'' @ str ''_max_tokens_per_sec'') = Some 6 \<and>
   load_lines [Parsed uneven_record] = Inr [uneven_record] \<and>
   spec_flattened (str ''wall_time'') [uneven_record] = [PInt 1] \<and>
   spec_flattened (str ''new_tokens'') [uneven_record] = [PInt 4, PInt 6] \<and>
   map_of (fst (parse_benchmark_results (Some [Parsed uneven_record]) (str ''b'')))
     (str ''b'' @ str ''_avg_tokens_per_sec'') = None \<and>
   map_of (fst (parse_benchmark_results (Some [Parsed uneven_record]) (str ''b'')))
     (str ''b'' @ str ''_avg_new_tokens'') = Some 5"
proof -
  let ?f = "[Parsed sparse_record, Blank, Parsed full_record, Parsed no_choices_record]"
  let ?rs = "[sparse_record, full_record, no_choices_record]"
  have l: "load_lines ?f = Inr ?rs"
    by simp
  have wf: "list_all well_formed_record ?rs"
    by (simp add: samples_well_formed)
  note s = tokens_per_sec_presence [OF l wf samples_in_range, of "str ''b''",
      unfolded Let_def samples_flattened]
  have a: "map_of (fst (parse_benchmark_results (Some ?f) (str ''b'')))
     (str ''b'' @ str ''_avg_tokens_per_sec'') = Some (8 / 3)"
    using s by (simp add: val_def)
  have b: "map_of (fst (parse_benchmark_results (Some ?f) (str ''b'')))
     (str ''b'' @ str ''_max_tokens_per_sec'') = Some 6"
    using s by (simp add: val_def)
  have l': "load_lines [Parsed uneven_record] = Inr [uneven_record]"
    by simp
  have wf': "list_all well_formed_record [uneven_record]"
    by (simp add: uneven_facts)
  note s' = tokens_per_sec_presence [OF l' wf' uneven_in_range, of "str ''b''",
      unfolded Let_def uneven_facts]
  have c: "map_of (fst (parse_benchmark_results (Some [Parsed uneven_record]) (str ''b'')))
     (str ''b'' @ str ''_avg_tokens_per_sec'') = None"
    using s' by simp
  have d: "map_of (fst (parse_benchmark_results (Some [Parsed uneven_record]) (str ''b'')))
     (str ''b'' @ str ''_avg_new_tokens'') = Some 5"
    using s' by (simp add: val_def)
  show ?thesis
    using l samples_flattened(1) samples_flattened(3) a b l' uneven_facts(2) uneven_facts(4) c d
    by blast
qed

text \<open>
  C4 as stated fails. With a negative wall time the ratio is 0, not
  \<open>new_tokens / wall_time\<close>. With a 401-digit token count the two flattened lists have
  the same non-zero length, yet the mean of the token counts raises \<open>OverflowError\<close>: the
  error is logged and the two metrics are absent.
\<close>

theorem tokens_per_sec_counterexample:
  "spec_flattened (str ''wall_time'') [negative_record] = [PInt (- 2)] \<and>
   spec_flattened (str ''new_tokens'') [negative_record] = [PInt 4] \<and>
   map_of (fst (parse_benchmark_results (Some [Parsed negative_record]) (str ''b'')))
     (str ''b'' @ str ''_avg_tokens_per_sec'') = Some 0 \<and>
   val (PInt 4) / val (PInt (- 2)) = - 2 \<and>
   spec_flattened (str ''wall_time'') [huge_record] = [PInt 1] \<and>
   spec_flattened (str ''new_tokens'') [huge_record] = [PInt huge] \<and>
   snd (parse_benchmark_results (Some [Parsed huge_record]) (str ''b'')) \<and>
   map_of (fst (parse_benchmark_results (Some [Parsed huge_record]) (str ''b'')))
     (str ''b'' @ str ''_avg_tokens_per_sec'') = None \<and>
   map_of (fst (parse_benchmark_results (Some [Parsed huge_record]) (str ''b'')))
     (str ''b'' @ str ''_max_tokens_per_sec'') = None"
proof -
  have l: "load_lines [Parsed negative_record] = Inr [negative_record]"
    by simp
  have wf: "list_all well_formed_record [negative_record]"
    by (simp add: samples_well_formed)
  have a: "map_of (fst (parse_benchmark_results (Some [Parsed negative_record]) (str ''b'')))
     (str ''b'' @ str ''_avg_tokens_per_sec'') = Some 0"
    using parse_in_range [OF l wf negative_in_range, of "str ''b''"]
      derive_tokens_per_sec (1) [OF spec_accs_range_ok [OF wf negative_in_range],
        of "str ''b''" 1]
    by (simp add: spec_accs_def negative_flattened ratio_def val_def)
  show ?thesis
    using a by (simp add: negative_flattened huge_flattened parse_huge val_def)
qed

section \<open>Facts about branch names\<close>

lemma in_class_str_model: "list_all in_class (str ''model_'')"
  by (simp add: str_def in_class_def)

lemma list_all_re_sub_unsafe: "list_all in_class (re_sub_unsafe name)"
  by (auto simp add: re_sub_unsafe_def list_all_iff in_class_def)

lemma startswith_dash:
  "startswith (re_sub_unsafe name) (str ''-'') \<longleftrightarrow> name \<noteq> [] \<and> hd name = of_char CHR ''-''"
proof (cases name)
  case Nil
  then show ?thesis by (simp add: startswith_def re_sub_unsafe_def str_def)
next
  case (Cons c cs)
  then show ?thesis
    by (auto simp add: startswith_def re_sub_unsafe_def str_def in_class_def)
qed

text \<open>
  C8. For every model name, \<open>sanitize_branch_name\<close> replaces each character outside
  \<open>[A-Za-z0-9_-]\<close> by an underscore and keeps every other character; when the name
  begins with a hyphen, that hyphen is replaced by the prefix \<open>model_\<close>. The result
  contains no character outside the class. The name \<open>--bad/name\<close> becomes
  \<open>model_-bad_name\<close>, which begins with \<open>model_\<close>.
\<close>

theorem sanitize_branch_name_spec:
  "sanitize_branch_name name =
     (if name \<noteq> [] \<and> hd name = of_char CHR ''-''
      then str ''model_'' @ map (\<lambda>c. if in_class c then c else of_char CHR ''_'') (tl name)
      else map (\<lambda>c. if in_class c then c else of_char CHR ''_'') name) \<and>
   (\<forall>c \<in> set (sanitize_branch_name name). in_class c) \<and>
   sanitize_branch_name (str ''--bad/name'') = str ''model_-bad_name'' \<and>
   startswith (sanitize_branch_name (str ''--bad/name'')) (str ''model_'')"
proof (intro conjI)
  show "sanitize_branch_name name =
     (if name \<noteq> [] \<and> hd name = of_char CHR ''-''
      then str ''model_'' @ map (\<lambda>c. if in_class c then c else of_char CHR ''_'') (tl name)
      else map (\<lambda>c. if in_class c then c else of_char CHR ''_'') name)"
    unfolding sanitize_branch_name_def Let_def startswith_dash
    by (simp add: re_sub_unsafe_def drop_Suc map_tl)
  have "list_all in_class (sanitize_branch_name name)"
    using list_all_re_sub_unsafe [of name] in_class_str_model
    unfolding sanitize_branch_name_def Let_def
    by (auto simp add: list_all_iff dest: in_set_dropD)
  then show "\<forall>c \<in> set (sanitize_branch_name name). in_class c"
    by (simp add: list_all_iff)
  show e: "sanitize_branch_name (str ''--bad/name'') = str ''model_-bad_name''"
    by (simp add: sanitize_branch_name_def re_sub_unsafe_def startswith_def str_def in_class_def)
  show "startswith (sanitize_branch_name (str ''--bad/name'')) (str ''model_'')"
    unfolding e by (simp add: startswith_def str_def)
qed

theorem sanitize_branch_name_spec_witness:
  "sanitize_branch_name (str ''-a b'') = str ''model_a_b'' \<and>
   sanitize_branch_name (str ''llama/3.1'') = str ''llama_3_1'' \<and>
   in_class (hd (sanitize_branch_name (str ''llama/3.1'')))"
proof -
  have a: "sanitize_branch_name (str ''-a b'') = str ''model_a_b''"
    using sanitize_branch_name_spec [of "str ''-a b''"]
    by (simp add: str_def in_class_def)
  have b: "sanitize_branch_name (str ''llama/3.1'') = str ''llama_3_1''"
    using sanitize_branch_name_spec [of "str ''llama/3.1''"]
    by (simp add: str_def in_class_def)
  have "\<forall>c \<in> set (sanitize_branch_name (str ''llama/3.1'')). in_class c"
    using sanitize_branch_name_spec [of "str ''llama/3.1''"] by blast
  moreover have "hd (sanitize_branch_name (str ''llama/3.1'')) \<in>
      set (sanitize_branch_name (str ''llama/3.1''))"
    unfolding b by (simp add: str_def)
  ultimately have c: "in_class (hd (sanitize_branch_name (str ''llama/3.1'')))"
    by blast
  show ?thesis using a b c by blast
qed

section \<open>Facts about the publish run\<close>

lemma commit_attempted_append [simp]:
  "commit_attempted (a @ b) \<longleftrightarrow> commit_attempted a \<or> commit_attempted b"
  by (simp add: commit_attempted_def)

lemma commit_attempted_Nil [simp]: "\<not> commit_attempted []"
  by (simp add: commit_attempted_def)

lemma commit_attempted_Cons [simp]:
  "commit_attempted (e # tr) \<longleftrightarrow> is_commit e \<or> commit_attempted tr"
  by (simp add: commit_attempted_def)

lemma end_runs_append [simp]: "end_runs (a @ b) = end_runs a + end_runs b"
  by (simp add: end_runs_def)

lemma end_runs_Nil [simp]: "end_runs [] = 0"
  by (simp add: end_runs_def)

lemma end_runs_Cons [simp]: "end_runs (e # tr) = (if e = EndRun then 1 else 0) + end_runs tr"
  by (simp add: end_runs_def)

lemma tracker_calls_no_commit [simp]:
  "\<not> commit_attempted (start_run t n)"
  "\<not> commit_attempted (log_params t ps)"
  "\<not> commit_attempted (log_metrics t ms)"
  "\<not> commit_attempted (log_artifacts t)"
  "\<not> commit_attempted (end_run t)"
  "\<not> commit_attempted (log_benchmark_results w t f bn)"
  by (simp_all add: start_run_def log_params_def log_metrics_def log_artifacts_def end_run_def
        log_benchmark_results_def Let_def)

lemma tracker_calls_no_end_run [simp]:
  "end_runs (start_run t n) = 0"
  "end_runs (log_params t ps) = 0"
  "end_runs (log_metrics t ms) = 0"
  "end_runs (log_artifacts t) = 0"
  "end_runs (log_benchmark_results w t f bn) = 0"
  by (simp_all add: start_run_def log_params_def log_metrics_def log_artifacts_def
        log_benchmark_results_def Let_def)

lemma end_runs_end_run [simp]: "end_runs (end_run t) = (if enabled t then 1 else 0)"
  by (simp add: end_run_def)

lemma start_tracking_D:
  "start_tracking w ml b s = (r, s') \<Longrightarrow>
     uploaded_files s' = uploaded_files s \<and> failed_files s' = failed_files s \<and>
     commit_attempted (trace s') = commit_attempted (trace s) \<and>
     end_runs (trace s') = end_runs (trace s)"
  by (auto simp add: start_tracking_def Let_def split: option.splits)

lemma upload_loop_D:
  "upload_loop w ml b fs s = (r, s') \<Longrightarrow>
     commit_attempted (trace s') = commit_attempted (trace s) \<and>
     end_runs (trace s') = end_runs (trace s)"
proof (induction fs arbitrary: s)
  case Nil
  then show ?case by simp
next
  case (Cons f fs)
  show ?case
  proof (cases "upload_outcome w f")
    case ApiOk
    then show ?thesis
      using Cons.prems Cons.IH
      by (cases ml) (auto simp add: Let_def upload_file_def dest!: Cons.IH)
  next
    case ApiError
    then show ?thesis
      using Cons.prems by (auto simp add: Let_def upload_file_def dest!: Cons.IH)
  next
    case ApiInterrupt
    then show ?thesis
      using Cons.prems by (auto simp add: Let_def upload_file_def)
  qed
qed

lemma upload_loop_all_fail:
  "\<forall>f \<in> set fs. upload_outcome w f = ApiError \<Longrightarrow> upload_loop w ml b fs s = (r, s') \<Longrightarrow>
     r = None \<and> uploaded_files s' = uploaded_files s \<and> failed_files s' = failed_files s @ fs"
  by (induction fs arbitrary: s) (auto simp add: Let_def upload_file_def)

lemma upload_loop_all_ok:
  "\<forall>f \<in> set fs. upload_outcome w f = ApiOk \<Longrightarrow> upload_loop w ml b fs s = (r, s') \<Longrightarrow>
     r = None \<and> length (uploaded_files s') = length (uploaded_files s) + length fs \<and>
     failed_files s' = failed_files s"
  by (induction fs arbitrary: s) (auto simp add: Let_def upload_file_def)

lemma upload_metadata_D:
  "upload_metadata w ml b s = (r, s') \<Longrightarrow>
     (uploaded_files s' = [] \<longleftrightarrow> uploaded_files s = []) \<and>
     failed_files s' = failed_files s \<and>
     commit_attempted (trace s') = commit_attempted (trace s) \<and>
     end_runs (trace s') = end_runs (trace s)"
  by (cases ml; cases "metadata_upload_outcome w")
     (auto simp add: upload_metadata_def Let_def upload_file_def
        split: option.splits if_splits)

lemma commit_and_report_D:
  "commit_and_report w ml b s = (r, s') \<Longrightarrow>
     uploaded_files s' = uploaded_files s \<and> failed_files s' = failed_files s \<and>
     (commit_attempted (trace s') \<longleftrightarrow> commit_attempted (trace s) \<or> uploaded_files s \<noteq> []) \<and>
     end_runs (trace s') = end_runs (trace s) \<and>
     (r = Inr True \<longleftrightarrow>
        uploaded_files s \<noteq> [] \<and> (\<exists>i. commit_outcome w = CommitId i \<and> i \<noteq> [])) \<and>
     (uploaded_files s = [] \<longrightarrow> r = Inr False)"
  by (cases ml; cases "commit_outcome w")
     (auto simp add: commit_and_report_def Let_def commit_changes_def truthy_def
        split: if_splits)

lemma create_branch_world:
  "fst (create_branch (\<lambda>u. (out, u)) ()) =
     (case out of
        ApiOk \<Rightarrow> Inr True | ApiError \<Rightarrow> Inr False | ApiInterrupt \<Rightarrow> Inl KeyboardInterrupt)"
  by (cases out) (simp_all add: create_branch_def)

text \<open>What a batch run that got past the pre-flight checks and the branch creation does.\<close>

lemma pipeline_D:
  assumes "(case start_tracking w ml b s1 of
              (Some e, s2) \<Rightarrow> (Inl e, s2)
            | (None, s2) \<Rightarrow>
                (case upload_loop w ml b fs s2 of
                   (Some e, s3) \<Rightarrow> (Inl e, s3)
                 | (None, s3) \<Rightarrow>
                     (case upload_metadata w ml b s3 of
                        (Some e, s4) \<Rightarrow> (Inl e, s4)
                      | (None, s4) \<Rightarrow> commit_and_report w ml b s4))) = (r, s)"
    and "\<not> commit_attempted (trace s1)" and "end_runs (trace s1) = 0"
    and "uploaded_files s1 = []"
  shows "(commit_attempted (trace s) \<longrightarrow> uploaded_files s \<noteq> []) \<and>
         end_runs (trace s) = 0 \<and>
         (r = Inr True \<longleftrightarrow>
            commit_attempted (trace s) \<and> (\<exists>i. commit_outcome w = CommitId i \<and> i \<noteq> [])) \<and>
         ((\<forall>f \<in> set fs. upload_outcome w f = ApiError) \<longrightarrow>
            \<not> commit_attempted (trace s) \<and> uploaded_files s = [] \<and> r \<noteq> Inr True \<and>
            (ml = None \<or> system_info w \<noteq> None \<longrightarrow> r = Inr False))"
proof -
  obtain r2 s2 where p2: "start_tracking w ml b s1 = (r2, s2)"
    by (cases "start_tracking w ml b s1")
  note d2 = start_tracking_D [OF p2]
  show ?thesis
  proof (cases r2)
    case (Some e)
    then show ?thesis
      using assms p2 d2 by (auto simp add: start_tracking_def Let_def split: option.splits)
  next
    case None
    note r2 = this
    obtain r3 s3 where p3: "upload_loop w ml b fs s2 = (r3, s3)"
      by (cases "upload_loop w ml b fs s2")
    note d3 = upload_loop_D [OF p3]
    have f3: "(\<forall>f \<in> set fs. upload_outcome w f = ApiError) \<Longrightarrow>
                r3 = None \<and> uploaded_files s3 = []"
      using upload_loop_all_fail [OF _ p3] d2 assms(4) by simp
    show ?thesis
    proof (cases r3)
      case (Some e)
      then show ?thesis
        using assms p2 r2 p3 d2 d3 f3 by auto
    next
      case None
      note r3 = this
      obtain r4 s4 where p4: "upload_metadata w ml b s3 = (r4, s4)"
        by (cases "upload_metadata w ml b s3")
      note d4 = upload_metadata_D [OF p4]
      have f4: "uploaded_files s3 = [] \<Longrightarrow> r4 = None"
        using p4 by (simp add: upload_metadata_def)
      show ?thesis
      proof (cases r4)
        case (Some e)
        then show ?thesis
          using assms p2 r2 p3 r3 p4 d2 d3 d4 f3 f4 by auto
      next
        case None
        then have p5: "commit_and_report w ml b s4 = (r, s)"
          using assms(1) p2 r2 p3 r3 p4 by simp
        note d5 = commit_and_report_D [OF p5]
        show ?thesis
          using assms(2-4) d2 d3 d4 d5 f3 by auto
      qed
    qed
  qed
qed

lemma upload_benchmark_results_D:
  assumes "upload_benchmark_results w ml = (r, s)"
  shows "(commit_attempted (trace s) \<longrightarrow> uploaded_files s \<noteq> []) \<and>
         end_runs (trace s) = 0 \<and>
         (r = Inr True \<longleftrightarrow>
            commit_attempted (trace s) \<and> (\<exists>i. commit_outcome w = CommitId i \<and> i \<noteq> [])) \<and>
         ((\<forall>f \<in> set (result_files w). upload_outcome w f = ApiError) \<longrightarrow>
            \<not> commit_attempted (trace s) \<and> uploaded_files s = [] \<and> r \<noteq> Inr True \<and>
            (create_branch_outcome w \<noteq> ApiInterrupt \<and> (ml = None \<or> system_info w \<noteq> None)
               \<longrightarrow> r = Inr False))"
proof (cases "store_init_ok w \<and> connection_ok w \<and> results_dir_exists w \<and> result_files w \<noteq> []")
  case False
  then show ?thesis
    using assms by (auto simp add: upload_benchmark_results_def Let_def split: if_splits)
next
  case True
  note pre = this
  show ?thesis
  proof (cases "create_branch_outcome w = ApiInterrupt")
    case True
    then show ?thesis
      using assms pre
      by (auto simp add: upload_benchmark_results_def Let_def create_branch_world)
  next
    case False
    define b where "b = branch_prefix w @ str ''_'' @ now_seconds w"
    define s1 where "s1 = \<lparr>uploaded_files = [], failed_files = [], trace = [CreateBranch b]\<rparr>"
    have "(case start_tracking w ml b s1 of
              (Some e, s2) \<Rightarrow> (Inl e, s2)
            | (None, s2) \<Rightarrow>
                (case upload_loop w ml b (result_files w) s2 of
                   (Some e, s3) \<Rightarrow> (Inl e, s3)
                 | (None, s3) \<Rightarrow>
                     (case upload_metadata w ml b s3 of
                        (Some e, s4) \<Rightarrow> (Inl e, s4)
                      | (None, s4) \<Rightarrow> commit_and_report w ml b s4))) = (r, s)"
      using assms pre False unfolding b_def s1_def
      by (cases "create_branch_outcome w")
         (simp_all add: upload_benchmark_results_def Let_def create_branch_world)
    from pipeline_D [OF this] show ?thesis
      using False by (simp add: s1_def)
  qed
qed

text \<open>
  C1. In every batch publish run, a commit is attempted only if the accumulated
  \<open>uploaded_files\<close> list is non-empty. When every per-file upload fails, no commit is
  attempted, \<open>uploaded_files\<close> stays empty and the run does not report success (it
  returns \<open>False\<close> unless the branch creation is interrupted or the system information
  cannot be gathered for the tracker, in which case an exception leaves the routine).
  The run returns \<open>True\<close> exactly when a commit was attempted and the store returned a
  commit id (a non-empty one).
\<close>

theorem commit_only_when_uploaded:
  "(commit_attempted (trace (snd (upload_benchmark_results w ml))) \<longrightarrow>
      uploaded_files (snd (upload_benchmark_results w ml)) \<noteq> []) \<and>
   ((\<forall>f \<in> set (result_files w). upload_outcome w f = ApiError) \<longrightarrow>
      \<not> commit_attempted (trace (snd (upload_benchmark_results w ml))) \<and>
      uploaded_files (snd (upload_benchmark_results w ml)) = [] \<and>
      fst (upload_benchmark_results w ml) \<noteq> Inr True \<and>
      (create_branch_outcome w \<noteq> ApiInterrupt \<and> (ml = None \<or> system_info w \<noteq> None)
         \<longrightarrow> fst (upload_benchmark_results w ml) = Inr False)) \<and>
   (fst (upload_benchmark_results w ml) = Inr True \<longleftrightarrow>
      commit_attempted (trace (snd (upload_benchmark_results w ml))) \<and>
      (\<exists>i. commit_outcome w = CommitId i \<and> i \<noteq> []))"
  using upload_benchmark_results_D [of w ml "fst (upload_benchmark_results w ml)"
      "snd (upload_benchmark_results w ml)"]
  by simp

lemma sample_world_run:
  "fst (upload_benchmark_results sample_world None) = Inr True"
  "uploaded_files (snd (upload_benchmark_results sample_world None)) =
     [str ''results/20240101_120000/a.jsonl'', str ''results/20240101_120000/b-1.jsonl'',
      str ''results/20240101_120000/experiment_metadata.json'']"
  by (simp_all add: upload_benchmark_results_def sample_world_def create_branch_world
        start_tracking_def upload_file_def basename_def upload_metadata_def
        commit_and_report_def commit_changes_def truthy_def str_def Let_def)

theorem commit_only_when_uploaded_witness:
  "result_files failing_world = [str ''out/a.jsonl'', str ''out/b-1.jsonl''] \<and>
   upload_outcome failing_world (str ''out/a.jsonl'') = ApiError \<and>
   upload_outcome failing_world (str ''out/b-1.jsonl'') = ApiError \<and>
   \<not> commit_attempted (trace (snd (upload_benchmark_results failing_world None))) \<and>
   uploaded_files (snd (upload_benchmark_results failing_world None)) = [] \<and>
   fst (upload_benchmark_results failing_world None) = Inr False \<and>
   commit_outcome sample_world = CommitId (str ''c0ffee'') \<and>
   fst (upload_benchmark_results sample_world None) = Inr True \<and>
   commit_attempted (trace (snd (upload_benchmark_results sample_world None))) \<and>
   uploaded_files (snd (upload_benchmark_results sample_world None)) \<noteq> []"
proof -
  have h: "\<forall>f \<in> set (result_files failing_world). upload_outcome failing_world f = ApiError"
    by (simp add: failing_world_def)
  have b: "create_branch_outcome failing_world \<noteq> ApiInterrupt"
    by (simp add: failing_world_def sample_world_def)
  note f = commit_only_when_uploaded [of failing_world None]
  have f1: "\<not> commit_attempted (trace (snd (upload_benchmark_results failing_world None)))"
    and f2: "uploaded_files (snd (upload_benchmark_results failing_world None)) = []"
    and f3: "fst (upload_benchmark_results failing_world None) = Inr False"
    using f h b by blast+
  note g = commit_only_when_uploaded [of sample_world None]
  have g1: "fst (upload_benchmark_results sample_world None) = Inr True"
    by (rule sample_world_run)
  have g2: "commit_attempted (trace (snd (upload_benchmark_results sample_world None)))"
    using g g1 by blast
  have g3: "uploaded_files (snd (upload_benchmark_results sample_world None)) \<noteq> []"
    using g g2 by blast
  show ?thesis
    using f1 f2 f3 g1 g2 g3 by (simp add: failing_world_def sample_world_def)
qed

lemma upload_metadata_ok:
  assumes "uploaded_files s \<noteq> []" "system_info w \<noteq> None" "metadata_write_ok w"
    "metadata_upload_outcome w = ApiOk" "metadata_remove_ok w"
  shows "\<exists>s'. upload_metadata w ml b s = (None, s') \<and>
           length (uploaded_files s') = length (uploaded_files s) + 1 \<and>
           failed_files s' = failed_files s"
  using assms by (auto simp add: upload_metadata_def Let_def upload_file_def)

lemma commit_and_report_ok:
  assumes "uploaded_files s \<noteq> []" "commit_outcome w = CommitId i" "i \<noteq> []" "enabled t"
  shows "\<exists>pre ps s'. commit_and_report w (Some t) b s = (Inr True, s') \<and>
           uploaded_files s' = uploaded_files s \<and> failed_files s' = failed_files s \<and>
           trace s' = pre @ [LogMetrics (final_metrics (uploaded_files s) (failed_files s)
                                           (result_files w)), LogParams ps]"
  using assms
  by (simp add: commit_and_report_def Let_def commit_changes_def truthy_def log_metrics_def
        log_params_def)

lemma success_rate_value:
  "files \<noteq> [] \<Longrightarrow> length uploaded = length files + 1 \<Longrightarrow>
     map_of (final_metrics uploaded failed files) (str ''upload_success_rate'') =
       Some ((of_nat (length files) + 1) / of_nat (length files))"
  by (simp add: final_metrics_def py_len_def str_def)

lemma publish_all_ok:
  assumes "store_init_ok w" "connection_ok w" "results_dir_exists w" "result_files w \<noteq> []"
    and "create_branch_outcome w \<noteq> ApiInterrupt" "system_info w \<noteq> None"
    and "\<forall>f \<in> set (result_files w). upload_outcome w f = ApiOk"
    and "metadata_write_ok w" "metadata_upload_outcome w = ApiOk" "metadata_remove_ok w"
    and "commit_outcome w = CommitId i" "i \<noteq> []" "enabled t"
  shows "\<exists>pre ps fm.
           fst (upload_benchmark_results w (Some t)) = Inr True \<and>
           trace (snd (upload_benchmark_results w (Some t))) = pre @ [LogMetrics fm, LogParams ps] \<and>
           length (uploaded_files (snd (upload_benchmark_results w (Some t)))) =
             length (result_files w) + 1 \<and>
           map_of fm (str ''upload_success_rate'') =
             Some ((of_nat (length (result_files w)) + 1) / of_nat (length (result_files w))) \<and>
           (1::rat) < (of_nat (length (result_files w)) + 1) / of_nat (length (result_files w))"
proof -
  define b where "b = branch_prefix w @ str ''_'' @ now_seconds w"
  define s1 where "s1 = \<lparr>uploaded_files = [], failed_files = [], trace = [CreateBranch b]\<rparr>"
  obtain info where info: "system_info w = Some info"
    using assms(6) by auto
  obtain s2 where p2: "start_tracking w (Some t) b s1 = (None, s2)"
    by (simp add: start_tracking_def Let_def info)
  have u2: "uploaded_files s2 = []" and f2: "failed_files s2 = []"
    using start_tracking_D [OF p2] by (simp_all add: s1_def)
  obtain r3 s3 where p3: "upload_loop w (Some t) b (result_files w) s2 = (r3, s3)"
    by (cases "upload_loop w (Some t) b (result_files w) s2")
  have r3: "r3 = None" and u3: "length (uploaded_files s3) = length (result_files w)"
    and f3: "failed_files s3 = []"
    using upload_loop_all_ok [OF assms(7) p3] u2 f2 by simp_all
  have ne3: "uploaded_files s3 \<noteq> []"
    using u3 assms(4) by auto
  obtain s4 where p4: "upload_metadata w (Some t) b s3 = (None, s4)"
    and u4: "length (uploaded_files s4) = length (result_files w) + 1"
    and f4: "failed_files s4 = []"
    using upload_metadata_ok [OF ne3 assms(6) assms(8-10), of "Some t" b] u3 f3 by auto
  have ne4: "uploaded_files s4 \<noteq> []"
    using u4 by auto
  obtain pre ps s5 where p5: "commit_and_report w (Some t) b s4 = (Inr True, s5)"
    and u5: "uploaded_files s5 = uploaded_files s4"
    and t5: "trace s5 = pre @ [LogMetrics (final_metrics (uploaded_files s4) (failed_files s4)
                                           (result_files w)), LogParams ps]"
    using commit_and_report_ok [OF ne4 assms(11-13), of b] by blast
  have run: "upload_benchmark_results w (Some t) = (Inr True, s5)"
    using assms(1-5) p2 p3 r3 p4 p5 unfolding b_def s1_def
    by (cases "create_branch_outcome w")
       (simp_all add: upload_benchmark_results_def Let_def create_branch_world)
  have v: "map_of (final_metrics (uploaded_files s4) (failed_files s4) (result_files w))
             (str ''upload_success_rate'') =
           Some ((of_nat (length (result_files w)) + 1) / of_nat (length (result_files w)))"
    using success_rate_value [OF assms(4) u4] .
  have n: "0 < length (result_files w)"
    using assms(4) by simp
  have g: "(1::rat) < (of_nat (length (result_files w)) + 1) / of_nat (length (result_files w))"
    using n by (simp add: field_simps)
  show ?thesis
    using run t5 u4 u5 v g by auto
qed

text \<open>
  C10. When the run gets past the pre-flight checks, all \<open>n \<ge> 1\<close> result files upload,
  the manifest is written, uploaded and removed, the commit returns an id and the
  tracker is enabled, the run returns \<open>True\<close> and the metrics logged last have
  \<open>upload_success_rate = (n + 1) / n\<close>, which is greater than 1: \<open>uploaded_files\<close>
  then holds the \<open>n\<close> result paths and the manifest path.
\<close>

theorem upload_success_rate_exceeds_one:
  assumes "store_init_ok w" "connection_ok w" "results_dir_exists w" "result_files w \<noteq> []"
    and "create_branch_outcome w \<noteq> ApiInterrupt" "system_info w \<noteq> None"
    and "\<forall>f \<in> set (result_files w). upload_outcome w f = ApiOk"
    and "metadata_write_ok w" "metadata_upload_outcome w = ApiOk" "metadata_remove_ok w"
    and "commit_outcome w = CommitId i" "i \<noteq> []" "enabled t"
  shows "\<exists>pre ps fm.
           fst (upload_benchmark_results w (Some t)) = Inr True \<and>
           trace (snd (upload_benchmark_results w (Some t))) = pre @ [LogMetrics fm, LogParams ps] \<and>
           length (uploaded_files (snd (upload_benchmark_results w (Some t)))) =
             length (result_files w) + 1 \<and>
           map_of fm (str ''upload_success_rate'') =
             Some ((of_nat (length (result_files w)) + 1) / of_nat (length (result_files w))) \<and>
           (1::rat) < (of_nat (length (result_files w)) + 1) / of_nat (length (result_files w))"
  using publish_all_ok [OF assms] .

theorem upload_success_rate_exceeds_one_witness:
  "length (result_files sample_world) = 2 \<and>
   upload_outcome sample_world (str ''out/a.jsonl'') = ApiOk \<and>
   upload_outcome sample_world (str ''out/b-1.jsonl'') = ApiOk \<and>
   fst (upload_benchmark_results sample_world (Some \<lparr>enabled = True\<rparr>)) = Inr True \<and>
   length (uploaded_files (snd (upload_benchmark_results sample_world (Some \<lparr>enabled = True\<rparr>))))
     = 3 \<and>
   (1::rat) < (of_nat (length (result_files sample_world)) + 1)
                / of_nat (length (result_files sample_world))"
proof -
  have h: "\<forall>f \<in> set (result_files sample_world). upload_outcome sample_world f = ApiOk"
    by (simp add: sample_world_def)
  have "\<exists>pre ps fm.
           fst (upload_benchmark_results sample_world (Some \<lparr>enabled = True\<rparr>)) = Inr True \<and>
           trace (snd (upload_benchmark_results sample_world (Some \<lparr>enabled = True\<rparr>))) =
             pre @ [LogMetrics fm, LogParams ps] \<and>
           length (uploaded_files (snd (upload_benchmark_results sample_world
             (Some \<lparr>enabled = True\<rparr>)))) = length (result_files sample_world) + 1 \<and>
           map_of fm (str ''upload_success_rate'') =
             Some ((of_nat (length (result_files sample_world)) + 1)
                     / of_nat (length (result_files sample_world))) \<and>
           (1::rat) < (of_nat (length (result_files sample_world)) + 1)
                        / of_nat (length (result_files sample_world))"
    by (rule upload_success_rate_exceeds_one [where i = "str ''c0ffee''"])
       (use h in \<open>simp_all add: sample_world_def str_def\<close>)
  then show ?thesis
    by (auto simp add: sample_world_def)
qed

section \<open>Facts about the entry point\<close>

lemma upload_single_result_no_end_run: "end_runs (snd (upload_single_result w f n)) = 0"
  by (cases "create_branch_outcome w"; cases "upload_outcome w f"; cases "commit_outcome w")
     (simp_all add: upload_single_result_def Let_def create_branch_world upload_file_def
        commit_changes_def)

lemma except_clauses_end_runs:
  "end_runs (snd (except_clauses e ml tr)) =
     end_runs tr + (case ml of Bound (Some t) \<Rightarrow> (if enabled t then 1 else 0) | _ \<Rightarrow> 0)"
  by (simp add: except_clauses_def Let_def split: local_var.splits option.splits)

lemma upload_benchmark_results_no_end_run:
  "end_runs (trace (snd (upload_benchmark_results w ml))) = 0"
  using upload_benchmark_results_D [of w ml "fst (upload_benchmark_results w ml)"
      "snd (upload_benchmark_results w ml)"]
  by simp

lemma main_single_end_runs:
  assumes "truthy (single_file a)"
  shows "end_runs (snd (main a w)) = 0"
proof -
  obtain r tr where u:
    "upload_single_result w (case single_file a of None \<Rightarrow> [] | Some f \<Rightarrow> f) (model_name a) = (r, tr)"
    by (cases "upload_single_result w (case single_file a of None \<Rightarrow> [] | Some f \<Rightarrow> f)
                 (model_name a)")
  have z: "end_runs tr = 0"
    using upload_single_result_no_end_run
      [of w "case single_file a of None \<Rightarrow> [] | Some f \<Rightarrow> f" "model_name a"] u
    by simp
  show ?thesis
    using assms u z
    by (cases r) (simp_all add: main_def finish_def except_clauses_end_runs)
qed

lemma main_batch_end_runs:
  assumes "\<not> truthy (single_file a)"
  shows "end_runs (snd (main a w)) =
     (if no_mlflow a then 0
      else case MLflowLogger_init w of
             Inl e \<Rightarrow> 0
           | Inr t \<Rightarrow>
               if \<not> enabled t then 0
               else if interrupt_after_publish w
                       \<and> (\<exists>v. fst (upload_benchmark_results w (Some t)) = Inr v)
               then 2 else 1)"
proof (cases "no_mlflow a")
  case True
  obtain r s where u: "upload_benchmark_results w None = (r, s)"
    by (cases "upload_benchmark_results w None")
  have z: "end_runs (trace s) = 0"
    using upload_benchmark_results_no_end_run [of w None] u by simp
  show ?thesis
    using assms True u z
    by (cases r) (simp_all add: main_def finish_def except_clauses_end_runs)
next
  case False
  note nm = this
  show ?thesis
  proof (cases "MLflowLogger_init w")
    case (Inl e)
    then show ?thesis
      using assms nm by (simp add: main_def except_clauses_end_runs)
  next
    case (Inr t)
    obtain r s where u: "upload_benchmark_results w (Some t) = (r, s)"
      by (cases "upload_benchmark_results w (Some t)")
    have z: "end_runs (trace s) = 0"
      using upload_benchmark_results_no_end_run [of w "Some t"] u by simp
    show ?thesis
      using assms nm Inr u z
      by (cases r) (simp_all add: main_def finish_def except_clauses_end_runs)
  qed
qed

lemma main_batch_last_event:
  assumes "\<not> truthy (single_file a)" "\<not> no_mlflow a" "MLflowLogger_init w = Inr t" "enabled t"
    and "\<not> interrupt_after_publish w"
  shows "\<exists>pre. snd (main a w) = pre @ [EndRun]"
proof -
  obtain r s where u: "upload_benchmark_results w (Some t) = (r, s)"
    by (cases "upload_benchmark_results w (Some t)")
  show ?thesis
    using assms u
    by (cases r) (simp_all add: main_def finish_def except_clauses_def end_run_def Let_def)
qed

text \<open>
  C6 (as amended). In batch mode with a tracker that was constructed and is enabled, the
  run is ended at the backend exactly once, as the last external call of the process, on
  every exit path on which no interruption arrives after the publish routine has
  returned: normal completion with either verdict, an unexpected error raised by the
  publish routine, and an interruption raised inside it. No run is ended in single-file
  mode, with the tracker switched off, when the construction of the tracker raises, or
  when the tracker is disabled.
\<close>

theorem end_run_once_in_batch:
  "(truthy (single_file a) \<longrightarrow> end_runs (snd (main a w)) = 0) \<and>
   (\<not> truthy (single_file a) \<and> no_mlflow a \<longrightarrow> end_runs (snd (main a w)) = 0) \<and>
   (\<not> truthy (single_file a) \<and> \<not> no_mlflow a \<and> MLflowLogger_init w = Inl e \<longrightarrow>
      end_runs (snd (main a w)) = 0) \<and>
   (\<not> truthy (single_file a) \<and> \<not> no_mlflow a \<and> MLflowLogger_init w = Inr t \<and> \<not> enabled t \<longrightarrow>
      end_runs (snd (main a w)) = 0) \<and>
   (\<not> truthy (single_file a) \<and> \<not> no_mlflow a \<and> MLflowLogger_init w = Inr t \<and> enabled t \<and>
    \<not> interrupt_after_publish w \<longrightarrow>
      end_runs (snd (main a w)) = 1 \<and> (\<exists>pre. snd (main a w) = pre @ [EndRun]))"
  using main_single_end_runs [of a w] main_batch_end_runs [of a w]
    main_batch_last_event [of a w t]
  by auto

lemma init_sample_world: "MLflowLogger_init sample_world = Inr \<lparr>enabled = True\<rparr>"
  by (simp add: MLflowLogger_init_def sample_world_def)

lemma init_interrupted_world: "MLflowLogger_init interrupted_world = Inr \<lparr>enabled = True\<rparr>"
  by (simp add: MLflowLogger_init_def interrupted_world_def sample_world_def)

lemma init_late_interrupt_world:
  "MLflowLogger_init late_interrupt_world = Inr \<lparr>enabled = True\<rparr>"
  by (simp add: MLflowLogger_init_def late_interrupt_world_def sample_world_def)

lemma late_interrupt_world_returns:
  "fst (upload_benchmark_results late_interrupt_world (Some \<lparr>enabled = True\<rparr>)) = Inr True"
proof -
  have h: "\<forall>f \<in> set (result_files late_interrupt_world).
             upload_outcome late_interrupt_world f = ApiOk"
    by (simp add: late_interrupt_world_def sample_world_def)
  have "\<exists>pre ps fm.
      fst (upload_benchmark_results late_interrupt_world (Some \<lparr>enabled = True\<rparr>)) = Inr True \<and>
      trace (snd (upload_benchmark_results late_interrupt_world (Some \<lparr>enabled = True\<rparr>))) =
        pre @ [LogMetrics fm, LogParams ps] \<and>
      length (uploaded_files (snd (upload_benchmark_results late_interrupt_world
        (Some \<lparr>enabled = True\<rparr>)))) = length (result_files late_interrupt_world) + 1 \<and>
      map_of fm (str ''upload_success_rate'') =
        Some ((of_nat (length (result_files late_interrupt_world)) + 1)
                / of_nat (length (result_files late_interrupt_world))) \<and>
      (1::rat) < (of_nat (length (result_files late_interrupt_world)) + 1)
                   / of_nat (length (result_files late_interrupt_world))"
    by (rule publish_all_ok [where i = "str ''c0ffee''"])
       (use h in \<open>simp_all add: late_interrupt_world_def sample_world_def str_def\<close>)
  then show ?thesis by blast
qed

theorem end_run_once_in_batch_witness:
  "\<not> truthy (single_file batch_args) \<and> \<not> no_mlflow batch_args \<and>
   MLflowLogger_init sample_world = Inr \<lparr>enabled = True\<rparr> \<and>
   \<not> interrupt_after_publish sample_world \<and>
   end_runs (snd (main batch_args sample_world)) = 1 \<and>
   MLflowLogger_init interrupted_world = Inr \<lparr>enabled = True\<rparr> \<and>
   \<not> interrupt_after_publish interrupted_world \<and>
   end_runs (snd (main batch_args interrupted_world)) = 1 \<and>
   truthy (single_file single_args) \<and>
   end_runs (snd (main single_args sample_world)) = 0 \<and>
   MLflowLogger_init no_credentials_world = Inl Exception \<and>
   end_runs (snd (main batch_args no_credentials_world)) = 0"
proof -
  have b: "\<not> truthy (single_file batch_args)" "\<not> no_mlflow batch_args"
    by (simp_all add: batch_args_def truthy_def)
  have e: "enabled \<lparr>enabled = True\<rparr>"
    by simp
  have i1: "\<not> interrupt_after_publish sample_world"
    by (simp add: sample_world_def)
  have i2: "\<not> interrupt_after_publish interrupted_world"
    by (simp add: interrupted_world_def sample_world_def)
  have s: "truthy (single_file single_args)"
    by (simp add: single_args_def truthy_def str_def)
  have n: "MLflowLogger_init no_credentials_world = Inl Exception"
    by (simp add: MLflowLogger_init_def no_credentials_world_def sample_world_def)
  have w1: "end_runs (snd (main batch_args sample_world)) = 1"
    using end_run_once_in_batch [of batch_args sample_world Exception "\<lparr>enabled = True\<rparr>"]
      b e i1 init_sample_world by blast
  have w2: "end_runs (snd (main batch_args interrupted_world)) = 1"
    using end_run_once_in_batch [of batch_args interrupted_world Exception "\<lparr>enabled = True\<rparr>"]
      b e i2 init_interrupted_world by blast
  have w3: "end_runs (snd (main single_args sample_world)) = 0"
    using end_run_once_in_batch [of single_args sample_world Exception "\<lparr>enabled = True\<rparr>"]
      s by blast
  have w4: "end_runs (snd (main batch_args no_credentials_world)) = 0"
    using end_run_once_in_batch [of batch_args no_credentials_world Exception
        "\<lparr>enabled = True\<rparr>"] b n by blast
  show ?thesis
    using b i1 i2 s n w1 w2 w3 w4 init_sample_world init_interrupted_world by blast
qed

lemma main_single_sample:
  "main single_args sample_world =
     (SysExit 0,
      [CreateBranch (str ''experiment_model_-bad_name_20240101''),
       UploadObject (str ''experiment_model_-bad_name_20240101'') (str ''out/a.jsonl'')
         (str ''results/20240101/a.jsonl''),
       Commit (str ''experiment_model_-bad_name_20240101'') [str ''results/20240101/a.jsonl'']
         []])"
  by (simp add: main_def single_args_def sample_world_def truthy_def upload_single_result_def
        create_branch_world upload_file_def commit_changes_def finish_def basename_def
        sanitize_branch_name_def re_sub_unsafe_def startswith_def in_class_def str_def Let_def)

text \<open>
  C6 as stated fails. In single-file mode a run that completes normally, with exit code
  0, ends no tracker run. In batch mode, an interruption that arrives after the publish
  routine has returned and the run was closed makes the interrupt clause close it a
  second time.
\<close>

theorem end_run_exactly_once_counterexample:
  "fst (main single_args sample_world) = SysExit 0 \<and>
   end_runs (snd (main single_args sample_world)) = 0 \<and>
   end_runs (snd (main batch_args late_interrupt_world)) = 2"
proof -
  have b: "\<not> truthy (single_file batch_args)" "\<not> no_mlflow batch_args"
    by (simp_all add: batch_args_def truthy_def)
  have l: "interrupt_after_publish late_interrupt_world"
    by (simp add: late_interrupt_world_def)
  have "end_runs (snd (main batch_args late_interrupt_world)) = 2"
    using main_batch_end_runs [OF b(1), of late_interrupt_world] b(2) l
      init_late_interrupt_world late_interrupt_world_returns
    by auto
  then show ?thesis
    by (simp add: main_single_sample)
qed

text \<open>
  C9. The code exits with 0 on success, 1 on failure and 130 on interruption in batch
  mode, but not in single-file mode: there \<open>mlflow_logger\<close> is never assigned, the
  interrupt clause raises \<open>UnboundLocalError\<close> when it reads it, and the process ends
  with a traceback and status 1. The run below is interrupted during the upload.
\<close>

theorem single_file_interrupt_exit_code:
  "fst (main single_args interrupted_world) = Uncaught UnboundLocalError \<and>
   exit_code (fst (main single_args interrupted_world)) = 1 \<and>
   exit_code (fst (main batch_args interrupted_world)) = 130"
  by (simp add: main_def single_args_def batch_args_def interrupted_world_def sample_world_def
        truthy_def upload_single_result_def upload_benchmark_results_def create_branch_world
        upload_file_def except_clauses_def exit_code_def MLflowLogger_init_def
        start_tracking_def start_run_def log_params_def str_def Let_def)

text \<open>
  C5. With the tracker library installed and no credentials in the configuration, the
  construction of the tracker raises instead of returning a disabled tracker, and the
  batch run ends with exit code 1 before any call to the store.
\<close>

theorem tracker_init_missing_credentials:
  "MLflowLogger_init no_credentials_world = Inl Exception \<and>
   main batch_args no_credentials_world = (SysExit 1, [])"
  by (simp add: main_def batch_args_def no_credentials_world_def sample_world_def truthy_def
        MLflowLogger_init_def except_clauses_def)

text \<open>
  The part of C5 that the code does: an unreachable backend gives a disabled tracker,
  and every logging call of a disabled tracker does nothing.
\<close>

lemma tracker_unreachable_backend:
  "mlflow_username w \<noteq> None \<Longrightarrow> mlflow_password w \<noteq> None \<Longrightarrow> \<not> set_experiment_ok w \<Longrightarrow>
     MLflowLogger_init w = Inr \<lparr>enabled = False\<rparr>"
  by (auto simp add: MLflowLogger_init_def)

lemma disabled_tracker_noops:
  "\<not> enabled t \<Longrightarrow>
     start_run t n = [] \<and> log_params t ps = [] \<and> log_metrics t ms = [] \<and>
     log_artifacts t = [] \<and> log_benchmark_results w t f bn = [] \<and> end_run t = []"
  by (simp add: start_run_def log_params_def log_metrics_def log_artifacts_def
        log_benchmark_results_def end_run_def)

section \<open>Facts about branch creation\<close>

lemma log_benchmark_results_branch [simp]:
  "log_benchmark_results (w\<lparr>create_branch_outcome := x\<rparr>) t f bn = log_benchmark_results w t f bn"
  by (simp add: log_benchmark_results_def)

lemma start_tracking_branch [simp]:
  "start_tracking (w\<lparr>create_branch_outcome := x\<rparr>) ml b s = start_tracking w ml b s"
  by (simp add: start_tracking_def split: option.splits)

lemma upload_loop_branch [simp]:
  "upload_loop (w\<lparr>create_branch_outcome := x\<rparr>) ml b fs s = upload_loop w ml b fs s"
  by (induction fs arbitrary: s) (auto simp add: Let_def split: sum.splits option.splits)

lemma upload_metadata_branch [simp]:
  "upload_metadata (w\<lparr>create_branch_outcome := x\<rparr>) ml b s = upload_metadata w ml b s"
  by (auto simp add: upload_metadata_def Let_def split: sum.splits option.splits)

lemma commit_and_report_branch [simp]:
  "commit_and_report (w\<lparr>create_branch_outcome := x\<rparr>) ml b s = commit_and_report w ml b s"
  by (auto simp add: commit_and_report_def Let_def split: sum.splits option.splits)

lemma upload_benchmark_results_branch:
  "upload_benchmark_results (w\<lparr>create_branch_outcome := ApiError\<rparr>) ml =
   upload_benchmark_results (w\<lparr>create_branch_outcome := ApiOk\<rparr>) ml"
  by (simp add: upload_benchmark_results_def create_branch_world Let_def
        split: sum.splits option.splits prod.splits)

lemma upload_single_result_branch:
  "upload_single_result (w\<lparr>create_branch_outcome := ApiError\<rparr>) f n =
   upload_single_result (w\<lparr>create_branch_outcome := ApiOk\<rparr>) f n"
  by (simp add: upload_single_result_def create_branch_world Let_def
        split: sum.splits option.splits)

text \<open>
  C7 (as amended). \<open>create_branch\<close> surfaces no store error to its caller: it returns
  \<open>True\<close> when the store's create call succeeds and \<open>False\<close> when that call raises. So
  when the store accepts the first of two identical invocations and rejects the second
  because the branch exists, the first returns \<open>True\<close> and the second returns \<open>False\<close>,
  without an exception. Both publish routines ignore the returned value: their verdict,
  uploads and calls are the same whether the branch was created or the creation failed.
\<close>

theorem create_branch_twice:
  "(api st = (ApiOk, st1) \<and> api st1 = (ApiError, st2) \<longrightarrow>
      create_branch api st = (Inr True, st1) \<and> create_branch api st1 = (Inr False, st2)) \<and>
   upload_benchmark_results (w\<lparr>create_branch_outcome := ApiError\<rparr>) ml =
     upload_benchmark_results (w\<lparr>create_branch_outcome := ApiOk\<rparr>) ml \<and>
   upload_single_result (w\<lparr>create_branch_outcome := ApiError\<rparr>) f n =
     upload_single_result (w\<lparr>create_branch_outcome := ApiOk\<rparr>) f n"
  by (simp add: create_branch_def upload_benchmark_results_branch upload_single_result_branch)

lemma lakefs_first:
  "lakefs_create_branch (str ''repo'') (str ''exp'') (str ''main'') sample_store =
     (ApiOk, \<lparr>branches = [(str ''repo'', str ''main''), (str ''repo'', str ''exp'')]\<rparr>)"
  by (simp add: lakefs_create_branch_def sample_store_def)

lemma lakefs_second:
  "lakefs_create_branch (str ''repo'') (str ''exp'') (str ''main'')
     \<lparr>branches = [(str ''repo'', str ''main''), (str ''repo'', str ''exp'')]\<rparr> =
     (ApiError, \<lparr>branches = [(str ''repo'', str ''main''), (str ''repo'', str ''exp'')]\<rparr>)"
  by (simp add: lakefs_create_branch_def)

theorem create_branch_twice_witness:
  "lakefs_create_branch (str ''repo'') (str ''exp'') (str ''main'') sample_store =
     (ApiOk, \<lparr>branches = [(str ''repo'', str ''main''), (str ''repo'', str ''exp'')]\<rparr>) \<and>
   lakefs_create_branch (str ''repo'') (str ''exp'') (str ''main'')
     \<lparr>branches = [(str ''repo'', str ''main''), (str ''repo'', str ''exp'')]\<rparr> =
     (ApiError, \<lparr>branches = [(str ''repo'', str ''main''), (str ''repo'', str ''exp'')]\<rparr>) \<and>
   create_branch (lakefs_create_branch (str ''repo'') (str ''exp'') (str ''main'')) sample_store =
     (Inr True, \<lparr>branches = [(str ''repo'', str ''main''), (str ''repo'', str ''exp'')]\<rparr>) \<and>
   create_branch (lakefs_create_branch (str ''repo'') (str ''exp'') (str ''main''))
     \<lparr>branches = [(str ''repo'', str ''main''), (str ''repo'', str ''exp'')]\<rparr> =
     (Inr False, \<lparr>branches = [(str ''repo'', str ''main''), (str ''repo'', str ''exp'')]\<rparr>)"
  using create_branch_twice
      [of "lakefs_create_branch (str ''repo'') (str ''exp'') (str ''main'')" sample_store
          "\<lparr>branches = [(str ''repo'', str ''main''), (str ''repo'', str ''exp'')]\<rparr>"
          "\<lparr>branches = [(str ''repo'', str ''main''), (str ''repo'', str ''exp'')]\<rparr>"]
    lakefs_first lakefs_second
  by blast

text \<open>
  C7 as stated fails on a store that rejects duplicate branches: the second of two
  identical invocations does not yield success.
\<close>

theorem create_branch_idempotent_counterexample:
  "fst (create_branch (lakefs_create_branch (str ''repo'') (str ''exp'') (str ''main''))
          sample_store) = Inr True \<and>
   fst (create_branch (lakefs_create_branch (str ''repo'') (str ''exp'') (str ''main''))
          (snd (create_branch (lakefs_create_branch (str ''repo'') (str ''exp'') (str ''main''))
                  sample_store))) = Inr False"
  by (simp add: create_branch_def lakefs_first lakefs_second)

end
